theory Spec2Isabelle
  imports Complex_Main
begin

section \<open>The dashboard controller of static/js/dashboard.js\<close>

text \<open>
  The class \<open>PocketOptionDashboard\<close> keeps three data fields (\<open>signals\<close>,
  \<open>connectionStats\<close>, \<open>performanceData\<close>), two chart objects, and writes into the
  page. Every method is modelled as a function from the state before to the state
  after; a method that can be left by an exception returns an \<open>outcome\<close> that carries
  the state reached when the exception was thrown, because the assignments made before
  the throw stay in place. The wall-clock label \<open>new Date().toLocaleTimeString()\<close> is an
  argument of every method that reads it. The calls into the chart library
  (\<open>update('none')\<close>), the console output, and the timers that later remove a
  notification badge (3000 ms) or the \<open>new-signal\<close> class of an element (500 ms) change
  nothing that is modelled here and are left out.
\<close>

subsection \<open>Payloads\<close>

text \<open>
  The fields are typed as section 3 of the specification types them; integer fields
  are JavaScript safe integers. \<open>direction\<close> stays a string, since the code compares it
  with the literals \<open>'CALL'\<close>, \<open>'PUT'\<close>, \<open>'HOLD'\<close> and lower-cases it. \<open>total_profit\<close> is
  optional: \<open>None\<close> is a payload without that field (\<open>undefined\<close> after destructuring).
  A number is carried as the exact rational of the IEEE double.
\<close>

record signal =
  timestamp :: int
  asset :: string
  direction :: string
  timeframe :: string
  confidence :: int

record connection_stats =
  websocket_connected :: bool
  authenticated :: bool
  last_message :: "string option"
  message_count :: int

record performance =
  total_signals :: int
  winning_signals :: int
  losing_signals :: int
  total_profit :: "rat option"
  active_assets :: int
  connection_status :: string

subsection \<open>The page\<close>

text \<open>
  \<open>texts\<close> maps the id of an element to its \<open>textContent\<close>; an id outside the domain is
  an element the page does not have (\<open>getElementById\<close> returns \<open>null\<close>). \<open>children\<close> are
  the child elements of \<open>#signals-container\<close>, first child first, and \<open>body\<close> holds the
  notification badges appended to \<open>document.body\<close>.
\<close>

record signal_element =
  el_class :: string
  el_signal :: signal

record badge =
  badge_text :: string
  badge_background :: string

record page =
  texts :: "string \<rightharpoonup> string"
  classes :: "string \<rightharpoonup> string"
  children :: "signal_element list"
  body :: "badge list"

definition getElementById :: "page \<Rightarrow> string \<Rightarrow> bool" where
  "getElementById pg i = (case texts pg i of None \<Rightarrow> False | Some _ \<Rightarrow> True)"

definition set_textContent :: "string \<Rightarrow> string \<Rightarrow> page \<Rightarrow> page" where
  "set_textContent i s pg =
     (if getElementById pg i then pg\<lparr>texts := (texts pg)(i \<mapsto> s)\<rparr> else pg)"

definition set_className :: "string \<Rightarrow> string \<Rightarrow> page \<Rightarrow> page" where
  "set_className i s pg =
     (if getElementById pg i then pg\<lparr>classes := (classes pg)(i \<mapsto> s)\<rparr> else pg)"

subsection \<open>The controller's state\<close>

record line_chart =
  labels :: "string list"
  points :: "rat option list"

record dashboard =
  signals :: "signal list"
  connectionStats :: connection_stats
  performanceData :: performance
  performanceChart :: "line_chart option"
  distributionChart :: "nat list option"
  doc :: page

datatype js_error = TypeError | FetchError

datatype outcome = Done dashboard | Thrown js_error dashboard

fun state_of :: "outcome \<Rightarrow> dashboard" where
  "state_of (Done d) = d"
| "state_of (Thrown e d) = d"

fun completed :: "outcome \<Rightarrow> bool" where
  "completed (Done d) = True"
| "completed (Thrown e d) = False"

text \<open>The result of one \<open>await fetch(..)\<close> followed by \<open>await response.json()\<close>.\<close>

datatype 'a fetched = Rejected | Resolved 'a

subsection \<open>Numbers and their text\<close>

definition digit_char :: "nat \<Rightarrow> char" where
  "digit_char n = ''0123456789'' ! n"

fun show_nat :: "nat \<Rightarrow> string" where
  "show_nat n = (if n < 10 then [digit_char n] else show_nat (n div 10) @ [digit_char (n mod 10)])"

declare show_nat.simps [simp del]

definition show_int :: "int \<Rightarrow> string" where
  "show_int i = (if i < 0 then CHR ''-'' # show_nat (nat (- i)) else show_nat (nat i))"

subsection \<open>Rendering\<close>

definition updateLastUpdateTime :: "string \<Rightarrow> dashboard \<Rightarrow> dashboard" where
  "updateLastUpdateTime now d = d\<lparr>doc := set_textContent ''last-update'' now (doc d)\<rparr>"

definition showNotification :: "string \<Rightarrow> string \<Rightarrow> dashboard \<Rightarrow> dashboard" where
  "showNotification message severity d =
     d\<lparr>doc := (doc d)\<lparr>body := body (doc d) @
        [\<lparr>badge_text = message,
          badge_background = (if severity = ''error'' then ''#e74c3c'' else ''#27ae60'')\<rparr>]\<rparr>\<rparr>"

definition createSignalElement :: "signal \<Rightarrow> signal_element" where
  "createSignalElement s = \<lparr>el_class = ''signal new-signal'', el_signal = s\<rparr>"

definition displaySignals :: "signal list \<Rightarrow> dashboard \<Rightarrow> dashboard" where
  "displaySignals sigs d =
     (if \<not> getElementById (doc d) ''signals-container'' then d
      else d\<lparr>doc := (doc d)\<lparr>children := [] @ map createSignalElement sigs\<rparr>\<rparr>)"

definition addSignalToUI :: "string \<Rightarrow> signal \<Rightarrow> dashboard \<Rightarrow> dashboard" where
  "addSignalToUI now s d =
     (if \<not> getElementById (doc d) ''signals-container'' then d
      else
        let inserted = createSignalElement s # children (doc d);
            kept = (if length inserted > 20 then butlast inserted else inserted)
        in updateLastUpdateTime now (d\<lparr>doc := (doc d)\<lparr>children := kept\<rparr>\<rparr>))"


definition check_mark :: string where
  "check_mark = [CHR 0xE2, CHR 0x9C, CHR 0x85]"

definition cross_mark :: string where
  "cross_mark = [CHR 0xE2, CHR 0x9D, CHR 0x8C]"

definition updateConnectionStatus :: "dashboard \<Rightarrow> dashboard" where
  "updateConnectionStatus d =
     (let c = connectionStats d;
          p1 = set_textContent ''connection-status''
                 (if websocket_connected c then check_mark @ '' Connected''
                  else cross_mark @ '' Disconnected'') (doc d);
          p2 = set_className ''connection-status''
                 (if websocket_connected c then ''connected'' else ''disconnected'') p1;
          p3 = set_textContent ''authentication-status''
                 (if authenticated c then check_mark @ '' Authenticated''
                  else cross_mark @ '' Not Authenticated'') p2;
          p4 = set_className ''authentication-status''
                 (if authenticated c then ''authenticated'' else ''not-authenticated'') p3;
          p5 = set_textContent ''message-count''
                 (show_int (if message_count c \<noteq> 0 then message_count c else 0)) p4;
          p6 = set_textContent ''last-activity''
                 (case last_message c of
                    None \<Rightarrow> ''Never''
                  | Some m \<Rightarrow> if m \<noteq> [] then m else ''Never'') p5
      in d\<lparr>doc := p6\<rparr>)"

subsection \<open>Double-precision arithmetic and \<open>toFixed\<close>\<close>

text \<open>
  A finite double is the rational it denotes. \<open>fl\<close> rounds a rational to the nearest
  double, ties to even: 53 significant bits, and below \<open>2\<^sup>-\<^sup>1\<^sup>0\<^sup>2\<^sup>2\<close> the fixed spacing
  \<open>2\<^sup>-\<^sup>1\<^sup>0\<^sup>7\<^sup>4\<close> of the subnormal numbers. Overflow to infinity is not modelled; a quotient
  of safe integers times 100 stays far below it.
\<close>

fun bits :: "nat \<Rightarrow> nat" where
  "bits n = (if n = 0 then 0 else Suc (bits (n div 2)))"

declare bits.simps [simp del]

definition pow2 :: "int \<Rightarrow> rat" where
  "pow2 k = (if 0 \<le> k then 2 ^ nat k else 1 / 2 ^ nat (- k))"

definition binade :: "rat \<Rightarrow> int" where
  "binade x =
     (let (p, q) = quotient_of \<bar>x\<bar>;
          d = int (bits (nat p)) - int (bits (nat q))
      in if pow2 d \<le> \<bar>x\<bar> then d else d - 1)"

definition round_even :: "rat \<Rightarrow> int" where
  "round_even x =
     (let f = \<lfloor>x\<rfloor>; r = x - of_int f
      in if r < 1 / 2 then f else if 1 / 2 < r then f + 1
         else if even f then f else f + 1)"

definition fl :: "rat \<Rightarrow> rat" where
  "fl x =
     (if x = 0 then 0
      else
        let u = pow2 (max (binade x - 52) (- 1074))
        in sgn x * of_int (round_even (\<bar>x\<bar> / u)) * u)"

definition fdiv :: "rat \<Rightarrow> rat \<Rightarrow> rat" where
  "fdiv a b = fl (a / b)"

definition fmul :: "rat \<Rightarrow> rat \<Rightarrow> rat" where
  "fmul a b = fl (a * b)"

text \<open>
  \<open>Number.prototype.toFixed\<close> for a finite number below \<open>10\<^sup>2\<^sup>1\<close> in magnitude: the
  integer \<open>n\<close> with \<open>n / 10\<^sup>f\<close> nearest to the magnitude (the larger one on a tie), its
  decimal digits padded with zeros to \<open>f + 1\<close> places, and the point before the last
  \<open>f\<close> digits.
\<close>

definition toFixed :: "nat \<Rightarrow> rat \<Rightarrow> string" where
  "toFixed f x =
     (let n = nat \<lfloor>\<bar>x\<bar> * 10 ^ f + 1 / 2\<rfloor>;
          m = show_nat n;
          padded = replicate (Suc f - length m) (CHR ''0'') @ m;
          k = length padded;
          fixed = (if f = 0 then padded
                   else take (k - f) padded @ ''.'' @ drop (k - f) padded)
      in (if x < 0 then ''-'' else []) @ fixed)"

definition winRateText :: "performance \<Rightarrow> string" where
  "winRateText p =
     (if total_signals p > 0
      then toFixed 1 (fmul (fdiv (of_int (winning_signals p)) (of_int (total_signals p))) 100)
      else ''0'') @ ''%''"

text \<open>
  \<open>updatePerformanceStats\<close> writes the fields in the order of the source. With
  \<open>total_profit\<close> undefined, \<open>total_profit.toFixed(2)\<close> throws a \<open>TypeError\<close> when
  \<open>#total-profit\<close> exists: the three texts written before it stay, the rest is skipped.
\<close>

definition updatePerformanceStats :: "dashboard \<Rightarrow> outcome" where
  "updatePerformanceStats d =
     (let p = performanceData d;
          p1 = set_textContent ''total-signals'' (show_int (total_signals p)) (doc d);
          p2 = set_textContent ''winning-signals'' (show_int (winning_signals p)) p1;
          p3 = set_textContent ''losing-signals'' (show_int (losing_signals p)) p2
      in if getElementById p3 ''total-profit'' \<and> total_profit p = None
         then Thrown TypeError (d\<lparr>doc := p3\<rparr>)
         else
           let p4 = (case total_profit p of
                       None \<Rightarrow> p3
                     | Some v \<Rightarrow> set_textContent ''total-profit'' (''$'' @ toFixed 2 v) p3);
               p5 = set_textContent ''active-assets''
                      (show_int (if active_assets p \<noteq> 0 then active_assets p else 0)) p4;
               p6 = set_textContent ''win-rate'' (winRateText p) p5
           in Done (d\<lparr>doc := p6\<rparr>))"

subsection \<open>Charts\<close>

definition count_direction :: "string \<Rightarrow> signal list \<Rightarrow> nat" where
  "count_direction dir sigs = length (filter (\<lambda>s. direction s = dir) sigs)"

definition updateCharts :: "string \<Rightarrow> dashboard \<Rightarrow> dashboard" where
  "updateCharts now d =
     (let d1 = (case performanceChart d of
                  None \<Rightarrow> d
                | Some ch \<Rightarrow>
                    let ls = labels ch @ [now];
                        ps = points ch @ [total_profit (performanceData d)]
                    in d\<lparr>performanceChart := Some
                         (if length ls > 20 then \<lparr>labels = tl ls, points = tl ps\<rparr>
                          else \<lparr>labels = ls, points = ps\<rparr>)\<rparr>)
      in case distributionChart d1 of
           None \<Rightarrow> d1
         | Some old \<Rightarrow>
             d1\<lparr>distributionChart := Some
               [count_direction ''CALL'' (signals d1),
                count_direction ''PUT'' (signals d1),
                count_direction ''HOLD'' (signals d1)]\<rparr>)"

definition initializeCharts :: "dashboard \<Rightarrow> dashboard" where
  "initializeCharts d =
     (let d1 = (if getElementById (doc d) ''performance-chart''
                then d\<lparr>performanceChart := Some \<lparr>labels = [], points = []\<rparr>\<rparr> else d)
      in if getElementById (doc d1) ''distribution-chart''
         then d1\<lparr>distributionChart := Some [0, 0, 0]\<rparr> else d1)"

text \<open>
  The constructor followed by \<open>initializeCharts\<close>. The first \<open>loadInitialData\<close> that
  \<open>init\<close> starts is asynchronous; it is the separate step below.
\<close>

definition new_dashboard :: "page \<Rightarrow> dashboard" where
  "new_dashboard pg =
     initializeCharts
       \<lparr>signals = [],
        connectionStats = \<lparr>websocket_connected = False, authenticated = False,
                           last_message = None, message_count = 0\<rparr>,
        performanceData = \<lparr>total_signals = 0, winning_signals = 0, losing_signals = 0,
                           total_profit = Some 0, active_assets = 0,
                           connection_status = ''disconnected''\<rparr>,
        performanceChart = None,
        distributionChart = None,
        doc = pg\<rparr>"

subsection \<open>Filter and search\<close>

definition filterSignals :: "string \<Rightarrow> dashboard \<Rightarrow> dashboard" where
  "filterSignals a d =
     displaySignals
       (if a = ''all'' then signals d else filter (\<lambda>s. asset s = a) (signals d)) d"

text \<open>Strings are ASCII: \<open>toLowerCase\<close> maps \<open>A\<close>..\<open>Z\<close> to \<open>a\<close>..\<open>z\<close>.\<close>

definition lower_char :: "char \<Rightarrow> char" where
  "lower_char c =
     (case map_of (zip ''ABCDEFGHIJKLMNOPQRSTUVWXYZ'' ''abcdefghijklmnopqrstuvwxyz'') c of
        None \<Rightarrow> c
      | Some l \<Rightarrow> l)"

definition toLowerCase :: "string \<Rightarrow> string" where
  "toLowerCase s = map lower_char s"

fun startsWith :: "string \<Rightarrow> string \<Rightarrow> bool" where
  "startsWith s [] = True"
| "startsWith [] (c # cs) = False"
| "startsWith (x # xs) (c # cs) = (x = c \<and> startsWith xs cs)"

fun str_includes :: "string \<Rightarrow> string \<Rightarrow> bool" where
  "str_includes [] q = (q = [])"
| "str_includes (x # xs) q = (startsWith (x # xs) q \<or> str_includes xs q)"

definition search_match :: "string \<Rightarrow> signal \<Rightarrow> bool" where
  "search_match q s =
     (str_includes (toLowerCase (asset s)) (toLowerCase q) \<or>
      str_includes (toLowerCase (direction s)) (toLowerCase q) \<or>
      str_includes (timeframe s) q)"

definition searchSignals :: "string \<Rightarrow> dashboard \<Rightarrow> dashboard" where
  "searchSignals q d = displaySignals (filter (search_match q) (signals d)) d"

subsection \<open>Push handlers and the pull\<close>

definition on_connection_update :: "connection_stats \<Rightarrow> dashboard \<Rightarrow> dashboard" where
  "on_connection_update stats d = updateConnectionStatus (d\<lparr>connectionStats := stats\<rparr>)"

definition on_performance_update :: "string \<Rightarrow> performance \<Rightarrow> dashboard \<Rightarrow> outcome" where
  "on_performance_update now data d =
     (case updatePerformanceStats (d\<lparr>performanceData := data\<rparr>) of
        Thrown e d1 \<Rightarrow> Thrown e d1
      | Done d1 \<Rightarrow> Done (updateCharts now d1))"

definition on_new_signal :: "string \<Rightarrow> signal \<Rightarrow> dashboard \<Rightarrow> dashboard" where
  "on_new_signal now s d =
     showNotification (''New '' @ direction s @ '' signal for '' @ asset s) ''success''
       (addSignalToUI now s d)"

definition on_disconnect :: "dashboard \<Rightarrow> dashboard" where
  "on_disconnect d = updateConnectionStatus d"

text \<open>
  The body of the \<open>try\<close> block of \<open>loadInitialData\<close>, run without another event between
  its \<open>await\<close>s. A request is issued only when everything before it went through.
\<close>

definition loadInitialData_try ::
  "string \<Rightarrow> signal list fetched \<Rightarrow> performance fetched \<Rightarrow> connection_stats fetched \<Rightarrow>
   dashboard \<Rightarrow> outcome" where
  "loadInitialData_try now sr pr cr d =
     (case sr of
        Rejected \<Rightarrow> Thrown FetchError d
      | Resolved sigs \<Rightarrow>
          let d1 = displaySignals sigs (d\<lparr>signals := sigs\<rparr>) in
          (case pr of
             Rejected \<Rightarrow> Thrown FetchError d1
           | Resolved perf \<Rightarrow>
               (case updatePerformanceStats (d1\<lparr>performanceData := perf\<rparr>) of
                  Thrown e d2 \<Rightarrow> Thrown e d2
                | Done d2 \<Rightarrow>
                    (case cr of
                       Rejected \<Rightarrow> Thrown FetchError d2
                     | Resolved conn \<Rightarrow>
                         Done (updateCharts now
                           (updateConnectionStatus (d2\<lparr>connectionStats := conn\<rparr>)))))))"

definition loadInitialData ::
  "string \<Rightarrow> signal list fetched \<Rightarrow> performance fetched \<Rightarrow> connection_stats fetched \<Rightarrow>
   dashboard \<Rightarrow> outcome" where
  "loadInitialData now sr pr cr d =
     (case loadInitialData_try now sr pr cr d of
        Done d1 \<Rightarrow> Done d1
      | Thrown e d1 \<Rightarrow> Done (showNotification ''Error loading data'' ''error'' d1))"

text \<open>
  Everything that reaches the controller: the push events, the socket's life-cycle
  events, the refresh button and the first load (both \<open>loadInitialData\<close>), the filter
  and search inputs, and the one-minute timer.
\<close>

datatype event =
    ConnectionUpdate connection_stats
  | PerformanceUpdate performance
  | NewSignal signal
  | Connect
  | Disconnect
  | Load "signal list fetched" "performance fetched" "connection_stats fetched"
  | FilterAsset string
  | SearchInput string
  | Tick

fun handle :: "string \<Rightarrow> event \<Rightarrow> dashboard \<Rightarrow> outcome" where
  "handle now (ConnectionUpdate stats) d = Done (on_connection_update stats d)"
| "handle now (PerformanceUpdate data) d = on_performance_update now data d"
| "handle now (NewSignal s) d = Done (on_new_signal now s d)"
| "handle now Connect d = Done d"
| "handle now Disconnect d = Done (on_disconnect d)"
| "handle now (Load sr pr cr) d = loadInitialData now sr pr cr d"
| "handle now (FilterAsset a) d = Done (filterSignals a d)"
| "handle now (SearchInput q) d = Done (searchSignals q d)"
| "handle now Tick d = Done (updateLastUpdateTime now d)"


subsection \<open>Runs of events\<close>

text \<open>
  Handlers run one after the other in arrival order. An exception that leaves a push
  handler is uncaught: the state stays as the handler left it.
\<close>

definition record_all :: "(string \<times> signal) list \<Rightarrow> dashboard \<Rightarrow> dashboard" where
  "record_all evs d = fold (\<lambda>(now, s). addSignalToUI now s) evs d"

definition new_signals :: "(string \<times> signal) list \<Rightarrow> dashboard \<Rightarrow> dashboard" where
  "new_signals evs d = fold (\<lambda>(now, s). on_new_signal now s) evs d"

definition performance_updates :: "(string \<times> performance) list \<Rightarrow> dashboard \<Rightarrow> dashboard" where
  "performance_updates ups d =
     fold (\<lambda>(now, p) d1. state_of (on_performance_update now p d1)) ups d"

text \<open>What the chart library reads of the time series: labels and values, oldest first.\<close>

definition chart_labels :: "dashboard \<Rightarrow> string list" where
  "chart_labels d = (case performanceChart d of None \<Rightarrow> [] | Some ch \<Rightarrow> labels ch)"

definition chart_points :: "dashboard \<Rightarrow> rat option list" where
  "chart_points d = (case performanceChart d of None \<Rightarrow> [] | Some ch \<Rightarrow> points ch)"

subsection \<open>The wording of the specification for search\<close>

text \<open>
  \<open>q\<close> is a substring of \<open>s\<close>, and \<open>q\<close> is a substring of \<open>s\<close> up to the case of the
  letters: some stretch of \<open>s\<close> has the lower-case form of \<open>q\<close>.
\<close>

definition is_substring :: "string \<Rightarrow> string \<Rightarrow> bool" where
  "is_substring q s = (\<exists>before after. s = before @ q @ after)"

definition is_substring_ci :: "string \<Rightarrow> string \<Rightarrow> bool" where
  "is_substring_ci q s =
     (\<exists>before mid after. s = before @ mid @ after \<and> toLowerCase mid = toLowerCase q)"

subsection \<open>Sample data\<close>

text \<open>A page that has every region the controller looks up, all of them still empty.\<close>

definition dashboard_ids :: "string list" where
  "dashboard_ids =
     [''signals-container'', ''performance-chart'', ''distribution-chart'',
      ''connection-status'', ''authentication-status'', ''message-count'',
      ''last-activity'', ''total-signals'', ''winning-signals'', ''losing-signals'',
      ''total-profit'', ''win-rate'', ''active-assets'', ''last-update'']"

definition dashboard_page :: page where
  "dashboard_page =
     \<lparr>texts = map_of (map (\<lambda>i. (i, [])) dashboard_ids),
      classes = Map.empty, children = [], body = []\<rparr>"

definition eurusd_call :: signal where
  "eurusd_call =
     \<lparr>timestamp = 0, asset = ''EURUSD'', direction = ''CALL'', timeframe = ''5m'',
      confidence = 87\<rparr>"

definition gbpusd_put :: signal where
  "gbpusd_put =
     \<lparr>timestamp = 1, asset = ''GBPUSD'', direction = ''PUT'', timeframe = ''1m'',
      confidence = 60\<rparr>"

definition six_of_ten :: performance where
  "six_of_ten =
     \<lparr>total_signals = 10, winning_signals = 6, losing_signals = 4,
      total_profit = Some (25 / 2), active_assets = 3, connection_status = ''connected''\<rparr>"

definition twenty_three_of_eighty :: performance where
  "twenty_three_of_eighty =
     \<lparr>total_signals = 80, winning_signals = 23, losing_signals = 57,
      total_profit = Some 0, active_assets = 3, connection_status = ''connected''\<rparr>"

definition no_profit :: performance where
  "no_profit =
     \<lparr>total_signals = 10, winning_signals = 6, losing_signals = 4,
      total_profit = None, active_assets = 3, connection_status = ''connected''\<rparr>"

definition online :: connection_stats where
  "online =
     \<lparr>websocket_connected = True, authenticated = True,
      last_message = Some ''12:00:00'', message_count = 5\<rparr>"

text \<open>The dashboard after a first load that brought two signals.\<close>

definition loaded_dashboard :: dashboard where
  "loaded_dashboard =
     state_of (loadInitialData ''12:00:00'' (Resolved [eurusd_call, gbpusd_put])
       (Resolved six_of_ten) (Resolved online) (new_dashboard dashboard_page))"

text \<open>The badge that the \<open>catch\<close> block of \<open>loadInitialData\<close> shows.\<close>

definition error_badge :: badge where
  "error_badge = \<lparr>badge_text = ''Error loading data'', badge_background = ''#e74c3c''\<rparr>"

section \<open>Frame lemmas for the page\<close>

lemma getElementById_set_textContent [simp]:
  "getElementById (set_textContent i s pg) j = getElementById pg j"
  by (simp add: getElementById_def set_textContent_def split: option.splits)

lemma getElementById_set_className [simp]:
  "getElementById (set_className i s pg) j = getElementById pg j"
  by (simp add: getElementById_def set_className_def)

lemma children_set_textContent [simp]: "children (set_textContent i s pg) = children pg"
  by (simp add: set_textContent_def)

lemma children_set_className [simp]: "children (set_className i s pg) = children pg"
  by (simp add: set_className_def)

lemma body_set_textContent [simp]: "body (set_textContent i s pg) = body pg"
  by (simp add: set_textContent_def)

lemma body_set_className [simp]: "body (set_className i s pg) = body pg"
  by (simp add: set_className_def)

lemma getElementById_children_update [simp]:
  "getElementById (pg\<lparr>children := cs\<rparr>) j = getElementById pg j"
  by (simp add: getElementById_def)

lemma getElementById_body_update [simp]:
  "getElementById (pg\<lparr>body := bs\<rparr>) j = getElementById pg j"
  by (simp add: getElementById_def)

section \<open>The visible signal list\<close>

lemma addSignalToUI_children:
  "getElementById (doc d) ''signals-container'' \<Longrightarrow>
   children (doc (addSignalToUI now s d)) =
     (if length (children (doc d)) < 20 then createSignalElement s # children (doc d)
      else butlast (createSignalElement s # children (doc d)))"
  by (simp add: addSignalToUI_def updateLastUpdateTime_def Let_def)

lemma addSignalToUI_present [simp]:
  "getElementById (doc (addSignalToUI now s d)) j = getElementById (doc d) j"
  by (simp add: addSignalToUI_def updateLastUpdateTime_def Let_def)

lemma butlast_take_full: "length xs = n \<Longrightarrow> butlast (x # xs) = take n (x # xs)"
  by (metis butlast_conv_take length_Cons diff_Suc_1)

lemma addSignalToUI_take:
  assumes "getElementById (doc d) ''signals-container''" and "length (children (doc d)) \<le> 20"
  shows "children (doc (addSignalToUI now s d)) = take 20 (createSignalElement s # children (doc d))"
proof (cases "length (children (doc d)) < 20")
  case True
  with assms show ?thesis by (simp add: addSignalToUI_children)
next
  case False
  with assms have "length (children (doc d)) = 20" by simp
  with assms show ?thesis
    using butlast_take_full [of "children (doc d)" 20 "createSignalElement s"]
    by (simp add: addSignalToUI_children)
qed

lemma take_append_take: "take n (xs @ take n ys) = take n (xs @ ys)"
  by (simp add: take_append min_def)

lemma record_all_take:
  "getElementById (doc d) ''signals-container'' \<Longrightarrow> length (children (doc d)) \<le> 20 \<Longrightarrow>
   children (doc (record_all evs d)) =
     take 20 (map createSignalElement (rev (map snd evs)) @ children (doc d))"
proof (induction evs arbitrary: d)
  case Nil
  then show ?case by (simp add: record_all_def)
next
  case (Cons ev evs)
  obtain now s where ev: "ev = (now, s)" by (cases ev)
  let ?d1 = "addSignalToUI now s d"
  have c1: "children (doc ?d1) = take 20 (createSignalElement s # children (doc d))"
    using Cons.prems by (rule addSignalToUI_take)
  have "children (doc (record_all evs ?d1)) =
          take 20 (map createSignalElement (rev (map snd evs)) @ children (doc ?d1))"
    using Cons.prems c1 by (intro Cons.IH) simp_all
  then have "children (doc (record_all evs ?d1)) =
          take 20 (map createSignalElement (rev (map snd evs)) @ createSignalElement s # children (doc d))"
    unfolding c1 by (rule trans) (rule take_append_take)
  then show ?case
    by (simp add: record_all_def ev)
qed

lemma dashboard_page_present:
  "getElementById dashboard_page ''signals-container''"
  "getElementById dashboard_page ''performance-chart''"
  "getElementById dashboard_page ''distribution-chart''"
  "getElementById dashboard_page ''total-profit''"
  "getElementById dashboard_page ''win-rate''"
  by (simp_all add: getElementById_def dashboard_page_def dashboard_ids_def)

lemma new_dashboard_fields:
  "signals (new_dashboard pg) = []"
  "doc (new_dashboard pg) = pg"
  by (simp_all add: new_dashboard_def initializeCharts_def Let_def)

text \<open>
  Claim C4. With the container on the page, \<open>addSignalToUI\<close> puts the new element
  before the first child and, when that makes more than 20 children, removes the last
  one. Hence, starting from an empty container, after \<open>N\<close> recordings the container
  holds the \<open>min N 20\<close> most recent signals, newest first.
\<close>

theorem visible_log_newest_first_capacity_20:
  "getElementById (doc d) ''signals-container'' \<Longrightarrow>
   children (doc (addSignalToUI now s d)) =
     (let inserted = createSignalElement s # children (doc d)
      in if length inserted > 20 then butlast inserted else inserted) \<and>
   (children (doc d) = [] \<longrightarrow>
      children (doc (record_all evs d)) =
        map createSignalElement (take 20 (rev (map snd evs))) \<and>
      length (children (doc (record_all evs d))) = min (length evs) 20)"
proof (intro conjI impI)
  assume p: "getElementById (doc d) ''signals-container''"
  show "children (doc (addSignalToUI now s d)) =
     (let inserted = createSignalElement s # children (doc d)
      in if length inserted > 20 then butlast inserted else inserted)"
    using p by (simp add: addSignalToUI_children Let_def)
  assume e: "children (doc d) = []"
  have "children (doc (record_all evs d)) =
          take 20 (map createSignalElement (rev (map snd evs)) @ children (doc d))"
    using p e by (intro record_all_take) simp_all
  then show main: "children (doc (record_all evs d)) =
        map createSignalElement (take 20 (rev (map snd evs)))"
    by (simp add: e take_map)
  show "length (children (doc (record_all evs d))) = min (length evs) 20"
    unfolding main by simp
qed

text \<open>
  Twenty EURUSD signals followed by one GBPUSD signal: the list keeps 20 elements, the
  GBPUSD signal first, and the oldest EURUSD signal is gone.
\<close>

theorem visible_log_witness:
  "getElementById (doc (new_dashboard dashboard_page)) ''signals-container'' \<and>
   children (doc (new_dashboard dashboard_page)) = [] \<and>
   children (doc (record_all (replicate 20 (''12:00'', eurusd_call) @ [(''12:01'', gbpusd_put)])
      (new_dashboard dashboard_page))) =
     createSignalElement gbpusd_put # replicate 19 (createSignalElement eurusd_call) \<and>
   length (children (doc (record_all
      (replicate 20 (''12:00'', eurusd_call) @ [(''12:01'', gbpusd_put)])
      (new_dashboard dashboard_page)))) = 20"
proof -
  have p: "getElementById (doc (new_dashboard dashboard_page)) ''signals-container''"
    by (simp add: new_dashboard_fields dashboard_page_present)
  have e: "children (doc (new_dashboard dashboard_page)) = []"
    by (simp add: new_dashboard_fields dashboard_page_def)
  show ?thesis
    using visible_log_newest_first_capacity_20
      [OF p, of "''x''" eurusd_call "replicate 20 (''12:00'', eurusd_call) @ [(''12:01'', gbpusd_put)]"]
      p e
    by (simp add: map_replicate_const)
qed

section \<open>What each method leaves alone\<close>

lemma updatePerformanceStats_frame [simp]:
  "signals (state_of (updatePerformanceStats d)) = signals d"
  "connectionStats (state_of (updatePerformanceStats d)) = connectionStats d"
  "performanceData (state_of (updatePerformanceStats d)) = performanceData d"
  "performanceChart (state_of (updatePerformanceStats d)) = performanceChart d"
  "distributionChart (state_of (updatePerformanceStats d)) = distributionChart d"
  "children (doc (state_of (updatePerformanceStats d))) = children (doc d)"
  "body (doc (state_of (updatePerformanceStats d))) = body (doc d)"
  "getElementById (doc (state_of (updatePerformanceStats d))) j = getElementById (doc d) j"
  by (simp_all add: updatePerformanceStats_def Let_def split: option.splits)

lemma updatePerformanceStats_completed:
  "completed (updatePerformanceStats d) =
     (\<not> (getElementById (doc d) ''total-profit'' \<and> total_profit (performanceData d) = None))"
  by (simp add: updatePerformanceStats_def Let_def)

lemma updatePerformanceStats_error:
  "updatePerformanceStats d = Thrown e d1 \<Longrightarrow> e = TypeError"
  by (simp add: updatePerformanceStats_def Let_def split: if_splits)

lemma updateConnectionStatus_frame [simp]:
  "signals (updateConnectionStatus d) = signals d"
  "connectionStats (updateConnectionStatus d) = connectionStats d"
  "performanceData (updateConnectionStatus d) = performanceData d"
  "performanceChart (updateConnectionStatus d) = performanceChart d"
  "distributionChart (updateConnectionStatus d) = distributionChart d"
  "children (doc (updateConnectionStatus d)) = children (doc d)"
  "body (doc (updateConnectionStatus d)) = body (doc d)"
  "getElementById (doc (updateConnectionStatus d)) j = getElementById (doc d) j"
  by (simp_all add: updateConnectionStatus_def Let_def)

lemma displaySignals_frame [simp]:
  "signals (displaySignals sigs d) = signals d"
  "connectionStats (displaySignals sigs d) = connectionStats d"
  "performanceData (displaySignals sigs d) = performanceData d"
  "performanceChart (displaySignals sigs d) = performanceChart d"
  "distributionChart (displaySignals sigs d) = distributionChart d"
  "body (doc (displaySignals sigs d)) = body (doc d)"
  "texts (doc (displaySignals sigs d)) = texts (doc d)"
  "classes (doc (displaySignals sigs d)) = classes (doc d)"
  "getElementById (doc (displaySignals sigs d)) j = getElementById (doc d) j"
  by (simp_all add: displaySignals_def)

lemma displaySignals_children:
  "children (doc (displaySignals sigs d)) =
     (if getElementById (doc d) ''signals-container'' then map createSignalElement sigs
      else children (doc d))"
  by (simp add: displaySignals_def)

lemma showNotification_frame [simp]:
  "signals (showNotification m t d) = signals d"
  "connectionStats (showNotification m t d) = connectionStats d"
  "performanceData (showNotification m t d) = performanceData d"
  "performanceChart (showNotification m t d) = performanceChart d"
  "distributionChart (showNotification m t d) = distributionChart d"
  "children (doc (showNotification m t d)) = children (doc d)"
  "texts (doc (showNotification m t d)) = texts (doc d)"
  "classes (doc (showNotification m t d)) = classes (doc d)"
  "getElementById (doc (showNotification m t d)) j = getElementById (doc d) j"
  by (simp_all add: showNotification_def)

lemma updateLastUpdateTime_frame [simp]:
  "signals (updateLastUpdateTime now d) = signals d"
  "connectionStats (updateLastUpdateTime now d) = connectionStats d"
  "performanceData (updateLastUpdateTime now d) = performanceData d"
  "performanceChart (updateLastUpdateTime now d) = performanceChart d"
  "distributionChart (updateLastUpdateTime now d) = distributionChart d"
  "children (doc (updateLastUpdateTime now d)) = children (doc d)"
  "body (doc (updateLastUpdateTime now d)) = body (doc d)"
  "getElementById (doc (updateLastUpdateTime now d)) j = getElementById (doc d) j"
  by (simp_all add: updateLastUpdateTime_def)

lemma addSignalToUI_frame [simp]:
  "signals (addSignalToUI now s d) = signals d"
  "connectionStats (addSignalToUI now s d) = connectionStats d"
  "performanceData (addSignalToUI now s d) = performanceData d"
  "performanceChart (addSignalToUI now s d) = performanceChart d"
  "distributionChart (addSignalToUI now s d) = distributionChart d"
  "body (doc (addSignalToUI now s d)) = body (doc d)"
  by (simp_all add: addSignalToUI_def Let_def)

lemma updateCharts_frame [simp]:
  "signals (updateCharts now d) = signals d"
  "connectionStats (updateCharts now d) = connectionStats d"
  "performanceData (updateCharts now d) = performanceData d"
  "doc (updateCharts now d) = doc d"
  by (simp_all add: updateCharts_def Let_def split: option.splits)

lemma updateCharts_performanceChart:
  "performanceChart (updateCharts now d) =
     (case performanceChart d of
        None \<Rightarrow> None
      | Some ch \<Rightarrow>
          Some (if length (labels ch) < 20
                then \<lparr>labels = labels ch @ [now],
                      points = points ch @ [total_profit (performanceData d)]\<rparr>
                else \<lparr>labels = tl (labels ch @ [now]),
                      points = tl (points ch @ [total_profit (performanceData d)])\<rparr>))"
  by (simp add: updateCharts_def Let_def split: option.splits)

lemma updateCharts_distributionChart:
  "distributionChart (updateCharts now d) =
     (case distributionChart d of
        None \<Rightarrow> None
      | Some old \<Rightarrow>
          Some [count_direction ''CALL'' (signals d), count_direction ''PUT'' (signals d),
                count_direction ''HOLD'' (signals d)])"
  by (simp add: updateCharts_def Let_def split: option.splits)

section \<open>The time series of the performance chart\<close>

lemma on_performance_update_chart:
  "completed (on_performance_update now p d) \<Longrightarrow>
   performanceChart (state_of (on_performance_update now p d)) =
     (case performanceChart d of
        None \<Rightarrow> None
      | Some ch \<Rightarrow>
          Some (if length (labels ch) < 20
                then \<lparr>labels = labels ch @ [now], points = points ch @ [total_profit p]\<rparr>
                else \<lparr>labels = tl (labels ch @ [now]),
                      points = tl (points ch @ [total_profit p])\<rparr>))"
proof -
  assume c: "completed (on_performance_update now p d)"
  let ?d0 = "d\<lparr>performanceData := p\<rparr>"
  obtain d1 where u: "updatePerformanceStats ?d0 = Done d1"
    using c by (cases "updatePerformanceStats ?d0") (simp_all add: on_performance_update_def)
  have f: "performanceChart d1 = performanceChart d" "performanceData d1 = p"
    using updatePerformanceStats_frame(3,4) [of ?d0] by (simp_all add: u)
  show ?thesis
    by (simp add: on_performance_update_def u updateCharts_performanceChart f split: option.splits)
qed

lemma on_performance_update_completed:
  "completed (on_performance_update now p d) =
     (\<not> (getElementById (doc d) ''total-profit'' \<and> total_profit p = None))"
  using updatePerformanceStats_completed [of "d\<lparr>performanceData := p\<rparr>"]
  by (cases "updatePerformanceStats (d\<lparr>performanceData := p\<rparr>)")
     (simp_all add: on_performance_update_def)

lemma on_performance_update_present [simp]:
  "getElementById (doc (state_of (on_performance_update now p d))) j = getElementById (doc d) j"
  using updatePerformanceStats_frame(8) [of "d\<lparr>performanceData := p\<rparr>" j]
  by (cases "updatePerformanceStats (d\<lparr>performanceData := p\<rparr>)")
     (simp_all add: on_performance_update_def)

lemma window_step:
  assumes "length xs \<le> 20"
  shows "(if length xs < 20 then xs @ [x] else tl (xs @ [x])) = drop (Suc (length xs) - 20) (xs @ [x])"
proof (cases "length xs < 20")
  case True
  then show ?thesis by simp
next
  case False
  with assms have "length xs = 20" by simp
  then obtain y ys where "xs = y # ys" by (cases xs) simp_all
  then show ?thesis using \<open>length xs = 20\<close> by simp
qed

lemma window_drop:
  assumes "k \<le> length ys"
  shows "drop (length (drop k ys) + n - c) (drop k ys @ zs) = drop (k + (length ys - k + n - c)) (ys @ zs)"
proof -
  have e: "drop k ys @ zs = drop k (ys @ zs)" using assms by simp
  show ?thesis
    unfolding e by (simp only: drop_drop length_drop add.commute)
qed

lemma performance_updates_window:
  assumes "performanceChart d = Some ch"
    and "length (labels ch) \<le> 20" and "length (points ch) = length (labels ch)"
    and "\<forall>(now, p) \<in> set ups. completed (on_performance_update now p d)"
  shows "performanceChart (performance_updates ups d) =
           Some \<lparr>labels = drop (length (labels ch) + length ups - 20) (labels ch @ map fst ups),
                 points = drop (length (labels ch) + length ups - 20)
                            (points ch @ map (\<lambda>(now, p). total_profit p) ups)\<rparr>"
  using assms
proof (induction ups arbitrary: d ch)
  case Nil
  then show ?case by (simp add: performance_updates_def)
next
  case (Cons up ups)
  obtain now p where up: "up = (now, p)" by (cases up)
  let ?d1 = "state_of (on_performance_update now p d)"
  let ?k = "Suc (length (labels ch)) - 20"
  let ?ch1 = "\<lparr>labels = drop ?k (labels ch @ [now]), points = drop ?k (points ch @ [total_profit p])\<rparr>"
  have c: "completed (on_performance_update now p d)"
    using Cons.prems(4) by (simp add: up)
  have ch1: "performanceChart ?d1 = Some ?ch1"
    using on_performance_update_chart [OF c] Cons.prems(1,2,3)
      window_step [of "labels ch" now] window_step [of "points ch" "total_profit p"]
    by (simp split: if_splits)
  have rest: "\<forall>(now', p') \<in> set ups. completed (on_performance_update now' p' ?d1)"
    using Cons.prems(4) by (auto simp: on_performance_update_completed)
  have len: "length (labels ?ch1) \<le> 20" "length (points ?ch1) = length (labels ?ch1)"
    using Cons.prems(2,3) by simp_all
  have ih: "performanceChart (performance_updates ups ?d1) =
      Some \<lparr>labels = drop (length (labels ?ch1) + length ups - 20) (labels ?ch1 @ map fst ups),
            points = drop (length (labels ?ch1) + length ups - 20)
                       (points ?ch1 @ map (\<lambda>(now, p). total_profit p) ups)\<rparr>"
    by (rule Cons.IH [OF ch1 len rest])
  have k: "?k \<le> length (labels ch @ [now])" "?k \<le> length (points ch @ [total_profit p])"
    using Cons.prems(3) by simp_all
  have idx: "?k + (length (labels ch @ [now]) - ?k + length ups - 20) =
               length (labels ch) + length (up # ups) - 20"
    using Cons.prems(2) by simp
  have idx2: "?k + (length (points ch @ [total_profit p]) - ?k + length ups - 20) =
               length (labels ch) + length (up # ups) - 20"
    using Cons.prems(2,3) by simp
  have l: "drop (length (labels ?ch1) + length ups - 20) (labels ?ch1 @ map fst ups) =
           drop (length (labels ch) + length (up # ups) - 20) (labels ch @ map fst (up # ups))"
    using window_drop [OF k(1), of "length ups" 20 "map fst ups"] idx
    by (simp add: up)
  have r: "drop (length (labels ?ch1) + length ups - 20)
              (points ?ch1 @ map (\<lambda>(now, p). total_profit p) ups) =
           drop (length (labels ch) + length (up # ups) - 20)
              (points ch @ map (\<lambda>(now, p). total_profit p) (up # ups))"
    using window_drop [OF k(2), of "length ups" 20 "map (\<lambda>(now, p). total_profit p) ups"] idx2
      Cons.prems(3)
    by (simp add: up)
  have "performance_updates (up # ups) d = performance_updates ups ?d1"
    by (simp add: performance_updates_def up)
  then show ?case
    using ih l r by simp
qed

lemma new_dashboard_charts:
  "performanceChart (new_dashboard dashboard_page) = Some \<lparr>labels = [], points = []\<rparr>"
  "distributionChart (new_dashboard dashboard_page) = Some [0, 0, 0]"
  by (simp_all add: new_dashboard_def initializeCharts_def Let_def dashboard_page_present)

text \<open>
  Claim C5. The time series starts empty and every performance update that carries a
  profit appends one point; beyond 20 points the oldest goes first. After \<open>N\<close> updates
  the labels and the values the chart reads are the last \<open>min N 20\<close> pushed ones in
  push order. Reading them is a projection of the state.
\<close>

theorem rolling_window_last_20:
  "performanceChart d = Some \<lparr>labels = [], points = []\<rparr> \<Longrightarrow>
   \<forall>(now, p) \<in> set ups. total_profit p \<noteq> None \<Longrightarrow>
   chart_labels (performance_updates ups d) = drop (length ups - 20) (map fst ups) \<and>
   chart_points (performance_updates ups d) =
     drop (length ups - 20) (map (\<lambda>(now, p). total_profit p) ups) \<and>
   length (chart_labels (performance_updates ups d)) = min (length ups) 20 \<and>
   length (chart_points (performance_updates ups d)) = min (length ups) 20"
proof -
  assume fresh: "performanceChart d = Some \<lparr>labels = [], points = []\<rparr>"
    and profit: "\<forall>(now, p) \<in> set ups. total_profit p \<noteq> None"
  have fin: "\<forall>(now, p) \<in> set ups. completed (on_performance_update now p d)"
    using profit by (auto simp: on_performance_update_completed)
  have "performanceChart (performance_updates ups d) =
          Some \<lparr>labels = drop (length ups - 20) (map fst ups),
                points = drop (length ups - 20) (map (\<lambda>(now, p). total_profit p) ups)\<rparr>"
    using performance_updates_window [OF fresh _ _ fin] by simp
  then show ?thesis
    by (simp add: chart_labels_def chart_points_def min_def)
qed

text \<open>
  Twenty updates with profit 12.5 and a twenty-first with profit 13: the first point
  is evicted and the newest one is last.
\<close>

theorem rolling_window_witness:
  "performanceChart (new_dashboard dashboard_page) = Some \<lparr>labels = [], points = []\<rparr> \<and>
   chart_labels (performance_updates
       (replicate 20 (''12:00'', six_of_ten) @ [(''12:21'', six_of_ten\<lparr>total_profit := Some 13\<rparr>)])
       (new_dashboard dashboard_page)) = replicate 19 ''12:00'' @ [''12:21''] \<and>
   chart_points (performance_updates
       (replicate 20 (''12:00'', six_of_ten) @ [(''12:21'', six_of_ten\<lparr>total_profit := Some 13\<rparr>)])
       (new_dashboard dashboard_page)) = replicate 19 (Some (25 / 2)) @ [Some 13]"
proof -
  have p: "\<forall>(now, p) \<in> set (replicate 20 (''12:00'', six_of_ten) @
            [(''12:21'', six_of_ten\<lparr>total_profit := Some 13\<rparr>)]). total_profit p \<noteq> None"
    by (simp add: six_of_ten_def del: not_None_eq)
  show ?thesis
    using rolling_window_last_20 [OF new_dashboard_charts(1) p]
    by (simp add: new_dashboard_charts six_of_ten_def)
qed

section \<open>Connection updates\<close>

lemma texts_set_textContent:
  "texts (set_textContent i s pg) j = (if j = i \<and> getElementById pg i then Some s else texts pg j)"
  by (simp add: set_textContent_def)

lemma texts_set_className [simp]: "texts (set_className i s pg) = texts pg"
  by (simp add: set_className_def)

lemma classes_set_className:
  "classes (set_className i s pg) j = (if j = i \<and> getElementById pg i then Some s else classes pg j)"
  by (simp add: set_className_def)

lemma classes_set_textContent [simp]: "classes (set_textContent i s pg) = classes pg"
  by (simp add: set_textContent_def)

lemma more_set_textContent [simp]: "page.more (set_textContent i s pg) = page.more pg"
  by (simp add: set_textContent_def)

lemma more_set_className [simp]: "page.more (set_className i s pg) = page.more pg"
  by (simp add: set_className_def)

lemma updateConnectionStatus_twice:
  "updateConnectionStatus (updateConnectionStatus d) = updateConnectionStatus d"
proof -
  have t: "texts (doc (updateConnectionStatus (updateConnectionStatus d))) j =
        texts (doc (updateConnectionStatus d)) j" for j
    by (simp add: updateConnectionStatus_def Let_def texts_set_textContent)
  have c: "classes (doc (updateConnectionStatus (updateConnectionStatus d))) j =
        classes (doc (updateConnectionStatus d)) j" for j
    by (simp add: updateConnectionStatus_def Let_def classes_set_className)
  have "doc (updateConnectionStatus (updateConnectionStatus d)) = doc (updateConnectionStatus d)"
  proof (rule page.equality)
    show "texts (doc (updateConnectionStatus (updateConnectionStatus d))) =
        texts (doc (updateConnectionStatus d))" using t by (rule ext)
    show "classes (doc (updateConnectionStatus (updateConnectionStatus d))) =
        classes (doc (updateConnectionStatus d))" using c by (rule ext)
  qed (simp_all add: updateConnectionStatus_def Let_def)
  then show ?thesis
    by (simp add: updateConnectionStatus_def Let_def)
qed

lemma updateConnectionStatus_message_count:
  "texts (doc (updateConnectionStatus d)) ''message-count'' =
     (if getElementById (doc d) ''message-count''
      then Some (show_int (message_count (connectionStats d))) else None)"
  by (simp add: updateConnectionStatus_def Let_def texts_set_textContent getElementById_def
        split: option.splits)

text \<open>
  Claim C9. A \<open>connection_update\<close> replaces the tracked connection state by the payload
  and renders it. Handling the same payload a second time gives the state reached
  after the first time, page included, and the message count shown is the count of the
  payload, not a sum.
\<close>

theorem connection_update_idempotent:
  "on_connection_update stats (on_connection_update stats d) = on_connection_update stats d \<and>
   connectionStats (on_connection_update stats d) = stats \<and>
   texts (doc (on_connection_update stats (on_connection_update stats d))) ''message-count'' =
     (if getElementById (doc d) ''message-count'' then Some (show_int (message_count stats))
      else None)"
proof -
  let ?d1 = "d\<lparr>connectionStats := stats\<rparr>"
  have same: "(updateConnectionStatus ?d1)\<lparr>connectionStats := stats\<rparr> = updateConnectionStatus ?d1"
    by (simp add: updateConnectionStatus_def Let_def)
  have twice: "on_connection_update stats (on_connection_update stats d) =
      on_connection_update stats d"
    by (simp add: on_connection_update_def same updateConnectionStatus_twice)
  have shown: "texts (doc (on_connection_update stats d)) ''message-count'' =
     (if getElementById (doc d) ''message-count'' then Some (show_int (message_count stats))
      else None)"
    using updateConnectionStatus_message_count [of ?d1] by (simp add: on_connection_update_def)
  show ?thesis
    using twice shown by (simp add: on_connection_update_def)
qed

theorem connection_update_witness:
  "on_connection_update online (on_connection_update online (new_dashboard dashboard_page)) =
     on_connection_update online (new_dashboard dashboard_page) \<and>
   texts (doc (on_connection_update online
     (on_connection_update online (new_dashboard dashboard_page)))) ''message-count'' = Some ''5''"
proof -
  note t = connection_update_idempotent [of online "new_dashboard dashboard_page"]
  have p: "getElementById (doc (new_dashboard dashboard_page)) ''message-count''"
    by (simp add: new_dashboard_fields getElementById_def dashboard_page_def dashboard_ids_def)
  have n: "show_int (message_count online) = ''5''"
    by (simp add: online_def show_int_def show_nat.simps digit_char_def)
  have a: "on_connection_update online (on_connection_update online (new_dashboard dashboard_page)) =
     on_connection_update online (new_dashboard dashboard_page)"
    using t by (rule conjunct1)
  have b: "texts (doc (on_connection_update online
     (on_connection_update online (new_dashboard dashboard_page)))) ''message-count'' = Some ''5''"
    using t [THEN conjunct2, THEN conjunct2] p n by (simp only: if_True)
  show ?thesis
    by (rule conjI [OF a b])
qed

section \<open>Filtering by asset\<close>

lemma filterSignals_twice: "filterSignals a (filterSignals a d) = filterSignals a d"
  by (simp add: filterSignals_def displaySignals_def)

text \<open>
  Claim C8. \<open>filterSignals\<close> never changes \<open>this.signals\<close>; with the argument
  \<open>all\<close> it shows the whole log, with any other argument \<open>a\<close> exactly the signals of
  asset \<open>a\<close>, in the order of the log, also right after a signal was recorded; and
  filtering twice with the same argument gives the state of filtering once.
\<close>

theorem filterSignals_pure_projection:
  "signals (filterSignals a d) = signals d \<and>
   filterSignals a (filterSignals a d) = filterSignals a d \<and>
   (getElementById (doc d) ''signals-container'' \<longrightarrow>
      children (doc (filterSignals ''all'' d)) = map createSignalElement (signals d) \<and>
      (a \<noteq> ''all'' \<longrightarrow>
         children (doc (filterSignals a d)) =
           map createSignalElement (filter (\<lambda>s. asset s = a) (signals d)) \<and>
         (\<forall>e \<in> set (children (doc (filterSignals a d))). asset (el_signal e) = a) \<and>
         (\<forall>e \<in> set (children (doc (filterSignals a (addSignalToUI now s d)))).
            asset (el_signal e) = a)))"
proof (intro conjI impI)
  show "signals (filterSignals a d) = signals d"
    by (simp add: filterSignals_def)
  show "filterSignals a (filterSignals a d) = filterSignals a d"
    by (rule filterSignals_twice)
next
  assume p: "getElementById (doc d) ''signals-container''"
  show "children (doc (filterSignals ''all'' d)) = map createSignalElement (signals d)"
    using p by (simp add: filterSignals_def displaySignals_children)
  assume a: "a \<noteq> ''all''"
  show c: "children (doc (filterSignals a d)) =
      map createSignalElement (filter (\<lambda>s. asset s = a) (signals d))"
    using p a by (simp add: filterSignals_def displaySignals_children)
  show "\<forall>e \<in> set (children (doc (filterSignals a d))). asset (el_signal e) = a"
    unfolding c by (auto simp: createSignalElement_def)
  have "children (doc (filterSignals a (addSignalToUI now s d))) =
      map createSignalElement (filter (\<lambda>s. asset s = a) (signals d))"
    using p a by (simp add: filterSignals_def displaySignals_children)
  then show "\<forall>e \<in> set (children (doc (filterSignals a (addSignalToUI now s d)))).
      asset (el_signal e) = a"
    by (auto simp: createSignalElement_def)
qed

section \<open>The pull\<close>

lemma loadInitialData_try_eq:
  "loadInitialData_try now sr pr cr d =
     (case sr of
        Rejected \<Rightarrow> Thrown FetchError d
      | Resolved sigs \<Rightarrow>
          (case pr of
             Rejected \<Rightarrow> Thrown FetchError (displaySignals sigs (d\<lparr>signals := sigs\<rparr>))
           | Resolved perf \<Rightarrow>
               if \<not> completed (updatePerformanceStats
                     ((displaySignals sigs (d\<lparr>signals := sigs\<rparr>))\<lparr>performanceData := perf\<rparr>))
               then Thrown TypeError (state_of (updatePerformanceStats
                     ((displaySignals sigs (d\<lparr>signals := sigs\<rparr>))\<lparr>performanceData := perf\<rparr>)))
               else (case cr of
                       Rejected \<Rightarrow> Thrown FetchError (state_of (updatePerformanceStats
                         ((displaySignals sigs (d\<lparr>signals := sigs\<rparr>))\<lparr>performanceData := perf\<rparr>)))
                     | Resolved conn \<Rightarrow>
                         Done (updateCharts now (updateConnectionStatus
                           ((state_of (updatePerformanceStats
                              ((displaySignals sigs (d\<lparr>signals := sigs\<rparr>))
                                 \<lparr>performanceData := perf\<rparr>)))\<lparr>connectionStats := conn\<rparr>))))))"
proof (cases sr)
  case Rejected
  then show ?thesis by (simp add: loadInitialData_try_def)
next
  case sr: (Resolved sigs)
  show ?thesis
  proof (cases pr)
    case Rejected
    then show ?thesis by (simp add: loadInitialData_try_def sr)
  next
    case pr: (Resolved perf)
    let ?X = "(displaySignals sigs (d\<lparr>signals := sigs\<rparr>))\<lparr>performanceData := perf\<rparr>"
    show ?thesis
    proof (cases "updatePerformanceStats ?X")
      case (Done d2)
      then show ?thesis
        by (cases cr) (simp_all add: loadInitialData_try_def sr pr)
    next
      case (Thrown e d2)
      then have "e = TypeError" by (rule updatePerformanceStats_error)
      with Thrown show ?thesis
        by (simp add: loadInitialData_try_def sr pr)
    qed
  qed
qed

lemma loadInitialData_completed: "completed (loadInitialData now sr pr cr d)"
  by (cases "loadInitialData_try now sr pr cr d") (simp_all add: loadInitialData_def)

lemma loadInitialData_state:
  "state_of (loadInitialData now sr pr cr d) =
     (if completed (loadInitialData_try now sr pr cr d)
      then state_of (loadInitialData_try now sr pr cr d)
      else showNotification ''Error loading data'' ''error''
             (state_of (loadInitialData_try now sr pr cr d)))"
  by (cases "loadInitialData_try now sr pr cr d") (simp_all add: loadInitialData_def)

lemma loadInitialData_present [simp]:
  "getElementById (doc (state_of (loadInitialData now sr pr cr d))) j = getElementById (doc d) j"
  by (simp add: loadInitialData_state loadInitialData_try_eq split: fetched.splits)

lemma loadInitialData_signals:
  "signals (state_of (loadInitialData now (Resolved sigs) pr cr d)) = sigs"
  by (simp add: loadInitialData_state loadInitialData_try_eq split: fetched.splits)

lemma loaded_dashboard_fields:
  "signals loaded_dashboard = [eurusd_call, gbpusd_put]"
  "getElementById (doc loaded_dashboard) j = getElementById dashboard_page j"
  by (simp_all add: loaded_dashboard_def loadInitialData_signals new_dashboard_fields)

theorem filterSignals_witness:
  "getElementById (doc loaded_dashboard) ''signals-container'' \<and>
   children (doc (filterSignals ''all'' loaded_dashboard)) =
     [createSignalElement eurusd_call, createSignalElement gbpusd_put] \<and>
   children (doc (filterSignals ''EURUSD'' loaded_dashboard)) = [createSignalElement eurusd_call] \<and>
   children (doc (filterSignals ''EURUSD''
     (addSignalToUI ''12:01:00'' gbpusd_put loaded_dashboard))) = [createSignalElement eurusd_call] \<and>
   signals (filterSignals ''EURUSD'' loaded_dashboard) = [eurusd_call, gbpusd_put]"
proof -
  have p: "getElementById (doc loaded_dashboard) ''signals-container''"
    by (simp add: loaded_dashboard_fields dashboard_page_present)
  have a: "''EURUSD'' \<noteq> ''all''" by simp
  have "children (doc (filterSignals ''EURUSD''
     (addSignalToUI ''12:01:00'' gbpusd_put loaded_dashboard))) = [createSignalElement eurusd_call]"
    using p by (simp add: filterSignals_def displaySignals_children loaded_dashboard_fields
         eurusd_call_def gbpusd_put_def)
  then show ?thesis
    using filterSignals_pure_projection [of "''EURUSD''" loaded_dashboard "''12:01:00''" gbpusd_put] p a
    by (simp add: loaded_dashboard_fields eurusd_call_def gbpusd_put_def)
qed

section \<open>Search\<close>

lemma startsWith_iff: "startsWith s q \<longleftrightarrow> (\<exists>after. s = q @ after)"
  by (induction s q rule: startsWith.induct) auto

lemma str_includes_iff: "str_includes s q \<longleftrightarrow> is_substring q s"
proof (induction s)
  case Nil
  then show ?case by (simp add: is_substring_def)
next
  case (Cons x xs)
  have "is_substring q (x # xs) \<longleftrightarrow> (\<exists>after. x # xs = q @ after) \<or> is_substring q xs"
  proof
    assume "is_substring q (x # xs)"
    then obtain b a where e: "x # xs = b @ q @ a" by (auto simp: is_substring_def)
    show "(\<exists>after. x # xs = q @ after) \<or> is_substring q xs"
    proof (cases b)
      case Nil
      with e show ?thesis by auto
    next
      case (Cons y ys)
      with e have "xs = ys @ q @ a" by simp
      then show ?thesis by (auto simp: is_substring_def)
    qed
  next
    assume "(\<exists>after. x # xs = q @ after) \<or> is_substring q xs"
    then show "is_substring q (x # xs)"
    proof
      assume "\<exists>after. x # xs = q @ after"
      then obtain a where "x # xs = [] @ q @ a" by auto
      then show ?thesis unfolding is_substring_def by blast
    next
      assume "is_substring q xs"
      then obtain b a where "xs = b @ q @ a" by (auto simp: is_substring_def)
      then have "x # xs = (x # b) @ q @ a" by simp
      then show ?thesis unfolding is_substring_def by blast
    qed
  qed
  with Cons show ?case by (simp add: startsWith_iff)
qed

lemma str_includes_lower_iff:
  "str_includes (toLowerCase s) (toLowerCase q) \<longleftrightarrow> is_substring_ci q s"
proof
  assume "str_includes (toLowerCase s) (toLowerCase q)"
  then obtain B A where "map lower_char s = B @ map lower_char q @ A"
    by (auto simp: str_includes_iff is_substring_def toLowerCase_def)
  then have "\<exists>b r. s = b @ r \<and> B = map lower_char b \<and> map lower_char q @ A = map lower_char r"
    by (simp only: map_eq_append_conv)
  then obtain b r where s: "s = b @ r" and "map lower_char r = map lower_char q @ A"
    by auto
  then have "\<exists>m a. r = m @ a \<and> map lower_char q = map lower_char m \<and> A = map lower_char a"
    by (simp only: map_eq_append_conv)
  then obtain m a where r: "r = m @ a" and m: "map lower_char m = map lower_char q"
    by auto
  have "s = b @ m @ a" using s r by simp
  with m show "is_substring_ci q s"
    unfolding is_substring_ci_def toLowerCase_def by blast
next
  assume "is_substring_ci q s"
  then obtain b m a where "s = b @ m @ a" and "toLowerCase m = toLowerCase q"
    by (auto simp: is_substring_ci_def)
  then have "toLowerCase s = toLowerCase b @ toLowerCase q @ toLowerCase a"
    by (simp add: toLowerCase_def)
  then show "str_includes (toLowerCase s) (toLowerCase q)"
    unfolding str_includes_iff is_substring_def by blast
qed

lemma search_match_iff:
  "search_match q s \<longleftrightarrow>
     is_substring_ci q (asset s) \<or> is_substring_ci q (direction s) \<or> is_substring q (timeframe s)"
  unfolding search_match_def str_includes_lower_iff by (simp only: str_includes_iff)

lemma str_includes_empty [simp]: "str_includes s []"
proof -
  have "s = [] @ [] @ s" by simp
  then have "is_substring [] s" unfolding is_substring_def by blast
  then show ?thesis by (simp only: str_includes_iff)
qed

text \<open>
  Claim C7. \<open>searchSignals\<close> leaves \<open>this.signals\<close> unchanged and shows exactly the
  signals for which the query is a substring of the asset or of the direction up to
  the case of the letters, or a substring of the time frame as it is written; one
  matching field is enough, and the empty query shows the whole log.
\<close>

theorem searchSignals_any_field:
  "signals (searchSignals q d) = signals d \<and>
   (getElementById (doc d) ''signals-container'' \<longrightarrow>
      children (doc (searchSignals q d)) =
        map createSignalElement
          (filter (\<lambda>s. is_substring_ci q (asset s) \<or> is_substring_ci q (direction s) \<or>
                        is_substring q (timeframe s)) (signals d)) \<and>
      children (doc (searchSignals [] d)) = map createSignalElement (signals d))"
proof (intro conjI impI)
  show "signals (searchSignals q d) = signals d"
    by (simp add: searchSignals_def)
  assume p: "getElementById (doc d) ''signals-container''"
  have m: "search_match q = (\<lambda>s. is_substring_ci q (asset s) \<or> is_substring_ci q (direction s) \<or>
                        is_substring q (timeframe s))"
    by (rule ext) (rule search_match_iff)
  show "children (doc (searchSignals q d)) =
        map createSignalElement
          (filter (\<lambda>s. is_substring_ci q (asset s) \<or> is_substring_ci q (direction s) \<or>
                        is_substring q (timeframe s)) (signals d))"
    using p by (simp add: searchSignals_def displaySignals_children m)
  have "search_match [] = (\<lambda>s. True)"
    by (rule ext) (simp add: search_match_def toLowerCase_def)
  then show "children (doc (searchSignals [] d)) = map createSignalElement (signals d)"
    using p by (simp add: searchSignals_def displaySignals_children)
qed


text \<open>
  On the log of \<open>loaded_dashboard\<close> the query \<open>Put\<close> finds the GBPUSD signal through
  its direction \<open>PUT\<close>, and the query \<open>5M\<close> finds nothing: the time frame \<open>5m\<close> is
  compared as it is written.
\<close>

theorem searchSignals_witness:
  "getElementById (doc loaded_dashboard) ''signals-container'' \<and>
   children (doc (searchSignals ''Put'' loaded_dashboard)) = [createSignalElement gbpusd_put] \<and>
   children (doc (searchSignals ''5M'' loaded_dashboard)) = [] \<and>
   children (doc (searchSignals [] loaded_dashboard)) =
     [createSignalElement eurusd_call, createSignalElement gbpusd_put]"
proof -
  have p: "getElementById (doc loaded_dashboard) ''signals-container''"
    by (simp add: loaded_dashboard_fields dashboard_page_present)
  note run = str_includes_lower_iff [symmetric] str_includes_iff [symmetric]
    loaded_dashboard_fields eurusd_call_def gbpusd_put_def toLowerCase_def lower_char_def
  have a: "children (doc (searchSignals ''Put'' loaded_dashboard)) = [createSignalElement gbpusd_put]"
    using searchSignals_any_field [of "''Put''" loaded_dashboard] p by (simp add: run)
  have b: "children (doc (searchSignals ''5M'' loaded_dashboard)) = []"
    using searchSignals_any_field [of "''5M''" loaded_dashboard] p by (simp add: run)
  have c: "children (doc (searchSignals [] loaded_dashboard)) =
     [createSignalElement eurusd_call, createSignalElement gbpusd_put]"
    using searchSignals_any_field [of "''Put''" loaded_dashboard] p
    by (simp add: loaded_dashboard_fields)
  show ?thesis
    using p a b c by (intro conjI)
qed

section \<open>Distribution counts\<close>

lemma on_new_signal_frame [simp]:
  "signals (on_new_signal now s d) = signals d"
  "connectionStats (on_new_signal now s d) = connectionStats d"
  "performanceData (on_new_signal now s d) = performanceData d"
  "performanceChart (on_new_signal now s d) = performanceChart d"
  "distributionChart (on_new_signal now s d) = distributionChart d"
  by (simp_all add: on_new_signal_def)

lemma new_signals_frame [simp]:
  "signals (new_signals evs d) = signals d"
  "performanceChart (new_signals evs d) = performanceChart d"
  "distributionChart (new_signals evs d) = distributionChart d"
proof -
  have "signals (new_signals evs d) = signals d \<and>
        performanceChart (new_signals evs d) = performanceChart d \<and>
        distributionChart (new_signals evs d) = distributionChart d"
  proof (induction evs arbitrary: d)
    case Nil
    then show ?case by (simp add: new_signals_def)
  next
    case (Cons ev evs)
    obtain now s where ev: "ev = (now, s)" by (cases ev)
    have "new_signals (ev # evs) d = new_signals evs (on_new_signal now s d)"
      by (simp add: new_signals_def ev)
    then show ?case using Cons.IH [of "on_new_signal now s d"] by simp
  qed
  then show "signals (new_signals evs d) = signals d"
    "performanceChart (new_signals evs d) = performanceChart d"
    "distributionChart (new_signals evs d) = distributionChart d"
    by simp_all
qed

lemma count_direction_sum:
  "\<forall>s \<in> set sigs. direction s = ''CALL'' \<or> direction s = ''PUT'' \<or> direction s = ''HOLD'' \<Longrightarrow>
   count_direction ''CALL'' sigs + count_direction ''PUT'' sigs + count_direction ''HOLD'' sigs =
     length sigs"
  by (induction sigs) (auto simp: count_direction_def)

lemma loadInitialData_all_resolved:
  "\<not> (getElementById (doc d) ''total-profit'' \<and> total_profit perf = None) \<Longrightarrow>
   loadInitialData now (Resolved sigs) (Resolved perf) (Resolved conn) d =
     Done (updateCharts now (updateConnectionStatus
       ((state_of (updatePerformanceStats
          ((displaySignals sigs (d\<lparr>signals := sigs\<rparr>))\<lparr>performanceData := perf\<rparr>)))
        \<lparr>connectionStats := conn\<rparr>)))"
  by (simp add: loadInitialData_def loadInitialData_try_eq updatePerformanceStats_completed)

lemma loadInitialData_distribution:
  "\<not> (getElementById (doc d) ''total-profit'' \<and> total_profit perf = None) \<Longrightarrow>
   distributionChart (state_of (loadInitialData now (Resolved sigs) (Resolved perf) (Resolved conn) d)) =
     (case distributionChart d of
        None \<Rightarrow> None
      | Some old \<Rightarrow> Some [count_direction ''CALL'' sigs, count_direction ''PUT'' sigs,
                          count_direction ''HOLD'' sigs])"
  by (simp add: loadInitialData_all_resolved updateCharts_distributionChart split: option.splits)

lemma loaded_dashboard_distribution:
  "distributionChart loaded_dashboard = Some [1, 1, 0]"
proof -
  have "\<not> (getElementById (doc (new_dashboard dashboard_page)) ''total-profit'' \<and>
    total_profit six_of_ten = None)"
    by (simp add: six_of_ten_def)
  then show ?thesis
    unfolding loaded_dashboard_def
    by (simp add: loadInitialData_distribution new_dashboard_charts count_direction_def
         eurusd_call_def gbpusd_put_def)
qed

text \<open>
  Claim C1, as the code has it. The distribution counts are taken over \<open>this.signals\<close>,
  and only a pull writes \<open>this.signals\<close>: a \<open>new_signal\<close> event changes neither the log
  nor the counts, however many arrive. After a pull that went through, the counts are
  those of the pulled log; and for a log whose directions are all \<open>CALL\<close>, \<open>PUT\<close> or
  \<open>HOLD\<close> the three counts add up to its length.
\<close>

theorem distribution_counts_of_pulled_log:
  "signals (new_signals evs d) = signals d \<and>
   distributionChart (new_signals evs d) = distributionChart d \<and>
   (distributionChart d \<noteq> None \<longrightarrow>
      distributionChart (updateCharts now (new_signals evs d)) =
        Some [count_direction ''CALL'' (signals d), count_direction ''PUT'' (signals d),
              count_direction ''HOLD'' (signals d)]) \<and>
   (distributionChart d \<noteq> None \<and>
    \<not> (getElementById (doc d) ''total-profit'' \<and> total_profit perf = None) \<longrightarrow>
      distributionChart
        (state_of (loadInitialData now (Resolved sigs) (Resolved perf) (Resolved conn) d)) =
        Some [count_direction ''CALL'' sigs, count_direction ''PUT'' sigs,
              count_direction ''HOLD'' sigs]) \<and>
   ((\<forall>s \<in> set sigs. direction s = ''CALL'' \<or> direction s = ''PUT'' \<or> direction s = ''HOLD'') \<longrightarrow>
      count_direction ''CALL'' sigs + count_direction ''PUT'' sigs +
        count_direction ''HOLD'' sigs = length sigs)"
proof (intro conjI impI)
  show "signals (new_signals evs d) = signals d"
    and "distributionChart (new_signals evs d) = distributionChart d"
    by simp_all
next
  assume "distributionChart d \<noteq> None"
  then show "distributionChart (updateCharts now (new_signals evs d)) =
        Some [count_direction ''CALL'' (signals d), count_direction ''PUT'' (signals d),
              count_direction ''HOLD'' (signals d)]"
    by (auto simp: updateCharts_distributionChart)
next
  assume "distributionChart d \<noteq> None \<and>
    \<not> (getElementById (doc d) ''total-profit'' \<and> total_profit perf = None)"
  then show "distributionChart
        (state_of (loadInitialData now (Resolved sigs) (Resolved perf) (Resolved conn) d)) =
        Some [count_direction ''CALL'' sigs, count_direction ''PUT'' sigs,
              count_direction ''HOLD'' sigs]"
    using loadInitialData_distribution [of d perf now sigs conn] by auto
next
  assume "\<forall>s \<in> set sigs. direction s = ''CALL'' \<or> direction s = ''PUT'' \<or> direction s = ''HOLD''"
  then show "count_direction ''CALL'' sigs + count_direction ''PUT'' sigs +
        count_direction ''HOLD'' sigs = length sigs"
    by (rule count_direction_sum)
qed

text \<open>
  Twenty-one \<open>CALL\<close> signals pushed to a fresh dashboard: the log stays empty and the
  counts computed by \<open>updateCharts\<close> are 0, 0, 0, not 21, 0, 0.
\<close>

theorem pushed_signals_not_counted:
  "distributionChart (updateCharts ''12:21:00''
     (new_signals (replicate 21 (''12:00:00'', eurusd_call)) (new_dashboard dashboard_page))) =
     Some [0, 0, 0] \<and>
   distributionChart (updateCharts ''12:21:00''
     (new_signals (replicate 21 (''12:00:00'', eurusd_call)) (new_dashboard dashboard_page))) \<noteq>
     Some [21, 0, 0] \<and>
   signals (new_signals (replicate 21 (''12:00:00'', eurusd_call)) (new_dashboard dashboard_page)) = []"
  by (simp add: updateCharts_distributionChart new_dashboard_charts new_dashboard_fields
        count_direction_def)

theorem distribution_counts_witness:
  "distributionChart loaded_dashboard \<noteq> None \<and>
   distributionChart (updateCharts ''12:21:00''
     (new_signals (replicate 21 (''12:00:00'', eurusd_call)) loaded_dashboard)) = Some [1, 1, 0] \<and>
   count_direction ''CALL'' [eurusd_call, gbpusd_put] +
     count_direction ''PUT'' [eurusd_call, gbpusd_put] +
     count_direction ''HOLD'' [eurusd_call, gbpusd_put] = 2"
proof -
  have v: "\<forall>s \<in> set [eurusd_call, gbpusd_put].
      direction s = ''CALL'' \<or> direction s = ''PUT'' \<or> direction s = ''HOLD''"
    by (simp add: eurusd_call_def gbpusd_put_def)
  have c: "count_direction ''CALL'' (signals loaded_dashboard) = 1"
      "count_direction ''PUT'' (signals loaded_dashboard) = 1"
      "count_direction ''HOLD'' (signals loaded_dashboard) = 0"
    by (simp_all add: loaded_dashboard_fields count_direction_def eurusd_call_def gbpusd_put_def)
  show ?thesis
    using distribution_counts_of_pulled_log
      [of "replicate 21 (''12:00:00'', eurusd_call)" loaded_dashboard "''12:21:00''" six_of_ten
          "[eurusd_call, gbpusd_put]" online] v c
    by (simp add: loaded_dashboard_distribution)
qed

section \<open>A pull that fails\<close>

lemma loadInitialData_try_completed:
  "completed (loadInitialData_try now sr pr cr d) \<longleftrightarrow>
     (\<exists>sigs perf conn. sr = Resolved sigs \<and> pr = Resolved perf \<and> cr = Resolved conn \<and>
        \<not> (getElementById (doc d) ''total-profit'' \<and> total_profit perf = None))"
  by (cases sr; cases pr; cases cr)
     (simp_all add: loadInitialData_try_eq updatePerformanceStats_completed)

lemma loadInitialData_try_frame:
  "\<not> completed (loadInitialData_try now sr pr cr d) \<Longrightarrow>
   connectionStats (state_of (loadInitialData_try now sr pr cr d)) = connectionStats d \<and>
   performanceChart (state_of (loadInitialData_try now sr pr cr d)) = performanceChart d \<and>
   distributionChart (state_of (loadInitialData_try now sr pr cr d)) = distributionChart d \<and>
   body (doc (state_of (loadInitialData_try now sr pr cr d))) = body (doc d)"
  by (cases sr; cases pr; cases cr)
     (simp_all add: loadInitialData_try_eq split: if_splits)

lemma loadInitialData_try_performance:
  "performanceData (state_of (loadInitialData_try now (Resolved sigs) (Resolved perf) cr d)) = perf"
  "signals (state_of (loadInitialData_try now (Resolved sigs) pr cr d)) = sigs"
  "performanceData (state_of (loadInitialData_try now (Resolved sigs) Rejected cr d)) =
     performanceData d"
  "state_of (loadInitialData_try now Rejected pr cr d) = d"
  by (cases cr; cases pr; simp add: loadInitialData_try_eq)+

lemma showNotification_body:
  "body (doc (showNotification ''Error loading data'' ''error'' d)) = body (doc d) @ [error_badge]"
  by (simp add: showNotification_def error_badge_def)

text \<open>
  Claim C2, as the code has it. \<open>loadInitialData\<close> never lets an exception out. When
  one of its requests fails it raises exactly one error notification and leaves the
  connection state and both charts as they were; what the requests before the failing
  one brought stays written: nothing when the signals request fails, the signal log
  when the performance request fails, the signal log and the performance snapshot when
  the connection request fails.
\<close>

theorem loadInitialData_failure_keeps_later_state:
  "completed (loadInitialData now sr pr cr d) \<and>
   (sr = Rejected \<or> pr = Rejected \<or> cr = Rejected \<longrightarrow>
      body (doc (state_of (loadInitialData now sr pr cr d))) = body (doc d) @ [error_badge] \<and>
      connectionStats (state_of (loadInitialData now sr pr cr d)) = connectionStats d \<and>
      performanceChart (state_of (loadInitialData now sr pr cr d)) = performanceChart d \<and>
      distributionChart (state_of (loadInitialData now sr pr cr d)) = distributionChart d) \<and>
   (sr = Rejected \<longrightarrow>
      state_of (loadInitialData now sr pr cr d) =
        showNotification ''Error loading data'' ''error'' d) \<and>
   (sr = Resolved sigs \<and> pr = Rejected \<longrightarrow>
      signals (state_of (loadInitialData now sr pr cr d)) = sigs \<and>
      performanceData (state_of (loadInitialData now sr pr cr d)) = performanceData d) \<and>
   (sr = Resolved sigs \<and> pr = Resolved perf \<and> cr = Rejected \<longrightarrow>
      signals (state_of (loadInitialData now sr pr cr d)) = sigs \<and>
      performanceData (state_of (loadInitialData now sr pr cr d)) = perf)"
proof (intro conjI impI)
  show "completed (loadInitialData now sr pr cr d)"
    by (rule loadInitialData_completed)
next
  assume f: "sr = Rejected \<or> pr = Rejected \<or> cr = Rejected"
  then have n: "\<not> completed (loadInitialData_try now sr pr cr d)"
    by (auto simp: loadInitialData_try_completed)
  note fr = loadInitialData_try_frame [OF n]
  show "body (doc (state_of (loadInitialData now sr pr cr d))) = body (doc d) @ [error_badge]"
    using n fr by (simp add: loadInitialData_state showNotification_body)
  show "connectionStats (state_of (loadInitialData now sr pr cr d)) = connectionStats d"
    using n fr by (simp add: loadInitialData_state)
  show "performanceChart (state_of (loadInitialData now sr pr cr d)) = performanceChart d"
    using n fr by (simp add: loadInitialData_state)
  show "distributionChart (state_of (loadInitialData now sr pr cr d)) = distributionChart d"
    using n fr by (simp add: loadInitialData_state)
next
  assume "sr = Rejected"
  then show "state_of (loadInitialData now sr pr cr d) =
        showNotification ''Error loading data'' ''error'' d"
    by (simp add: loadInitialData_state loadInitialData_try_completed loadInitialData_try_performance)
next
  assume a: "sr = Resolved sigs \<and> pr = Rejected"
  then have n: "\<not> completed (loadInitialData_try now sr pr cr d)"
    by (auto simp: loadInitialData_try_completed)
  show "signals (state_of (loadInitialData now sr pr cr d)) = sigs"
    using a n by (simp add: loadInitialData_state loadInitialData_try_performance)
  show "performanceData (state_of (loadInitialData now sr pr cr d)) = performanceData d"
    using a n by (simp add: loadInitialData_state loadInitialData_try_performance)
next
  assume a: "sr = Resolved sigs \<and> pr = Resolved perf \<and> cr = Rejected"
  then have n: "\<not> completed (loadInitialData_try now sr pr cr d)"
    by (auto simp: loadInitialData_try_completed)
  show "signals (state_of (loadInitialData now sr pr cr d)) = sigs"
    using a n by (simp add: loadInitialData_state loadInitialData_try_performance)
  show "performanceData (state_of (loadInitialData now sr pr cr d)) = perf"
    using a n by (simp add: loadInitialData_state loadInitialData_try_performance)
qed

text \<open>
  The performance request fails after the signals request brought one signal: the
  signal log held before (empty) has been replaced.
\<close>

theorem failed_pull_replaces_signals:
  "signals (state_of (loadInitialData ''12:00:00'' (Resolved [eurusd_call]) Rejected
      (Resolved online) (new_dashboard dashboard_page))) = [eurusd_call] \<and>
   signals (state_of (loadInitialData ''12:00:00'' (Resolved [eurusd_call]) Rejected
      (Resolved online) (new_dashboard dashboard_page))) \<noteq> signals (new_dashboard dashboard_page)"
  by (simp add: loadInitialData_signals new_dashboard_fields)

theorem loadInitialData_failure_witness:
  "completed (loadInitialData ''12:00:00'' (Resolved [eurusd_call]) (Resolved six_of_ten) Rejected
      (new_dashboard dashboard_page)) \<and>
   body (doc (state_of (loadInitialData ''12:00:00'' (Resolved [eurusd_call]) (Resolved six_of_ten)
      Rejected (new_dashboard dashboard_page)))) = [error_badge] \<and>
   signals (state_of (loadInitialData ''12:00:00'' (Resolved [eurusd_call]) (Resolved six_of_ten)
      Rejected (new_dashboard dashboard_page))) = [eurusd_call] \<and>
   performanceData (state_of (loadInitialData ''12:00:00'' (Resolved [eurusd_call])
      (Resolved six_of_ten) Rejected (new_dashboard dashboard_page))) = six_of_ten \<and>
   connectionStats (state_of (loadInitialData ''12:00:00'' (Resolved [eurusd_call])
      (Resolved six_of_ten) Rejected (new_dashboard dashboard_page))) =
     connectionStats (new_dashboard dashboard_page)"
  using loadInitialData_failure_keeps_later_state
    [of "''12:00:00''" "Resolved [eurusd_call]" "Resolved six_of_ten" Rejected
        "new_dashboard dashboard_page" "[eurusd_call]" six_of_ten]
  by (simp add: new_dashboard_fields dashboard_page_def)

section \<open>A performance update without a profit\<close>

lemma on_performance_update_frame [simp]:
  "signals (state_of (on_performance_update now p d)) = signals d"
  "connectionStats (state_of (on_performance_update now p d)) = connectionStats d"
  "performanceData (state_of (on_performance_update now p d)) = p"
  "body (doc (state_of (on_performance_update now p d))) = body (doc d)"
  "children (doc (state_of (on_performance_update now p d))) = children (doc d)"
  using updatePerformanceStats_frame [of "d\<lparr>performanceData := p\<rparr>"]
  by (cases "updatePerformanceStats (d\<lparr>performanceData := p\<rparr>)";
      simp add: on_performance_update_def)+

lemma on_performance_update_thrown:
  "\<not> completed (on_performance_update now p d) \<Longrightarrow>
   performanceChart (state_of (on_performance_update now p d)) = performanceChart d \<and>
   distributionChart (state_of (on_performance_update now p d)) = distributionChart d \<and>
   (\<exists>d1. on_performance_update now p d = Thrown TypeError d1)"
  using updatePerformanceStats_frame [of "d\<lparr>performanceData := p\<rparr>"]
    updatePerformanceStats_error [of "d\<lparr>performanceData := p\<rparr>"]
  by (cases "updatePerformanceStats (d\<lparr>performanceData := p\<rparr>)")
     (simp_all add: on_performance_update_def)

text \<open>
  Claim C3, as the code has it. A performance update without \<open>total_profit\<close> is not
  rejected: on both paths the payload replaces the performance snapshot. On the push
  path no notification is raised, and where the page has the total-profit field the
  handler ends in an uncaught \<open>TypeError\<close> before the charts are updated; without
  that field it runs to its end. On the pull path the \<open>TypeError\<close> is caught: no
  exception gets out and one error notification is raised, with the signal log and the
  performance snapshot already replaced and the connection state left as it was.
\<close>

theorem missing_total_profit_is_not_rejected:
  "total_profit p = None \<Longrightarrow>
   performanceData (state_of (on_performance_update now p d)) = p \<and>
   body (doc (state_of (on_performance_update now p d))) = body (doc d) \<and>
   (getElementById (doc d) ''total-profit'' \<longrightarrow>
      (\<exists>d1. on_performance_update now p d = Thrown TypeError d1) \<and>
      performanceChart (state_of (on_performance_update now p d)) = performanceChart d \<and>
      distributionChart (state_of (on_performance_update now p d)) = distributionChart d \<and>
      completed (loadInitialData now (Resolved sigs) (Resolved p) cr d) \<and>
      body (doc (state_of (loadInitialData now (Resolved sigs) (Resolved p) cr d))) =
        body (doc d) @ [error_badge] \<and>
      signals (state_of (loadInitialData now (Resolved sigs) (Resolved p) cr d)) = sigs \<and>
      performanceData (state_of (loadInitialData now (Resolved sigs) (Resolved p) cr d)) = p \<and>
      connectionStats (state_of (loadInitialData now (Resolved sigs) (Resolved p) cr d)) =
        connectionStats d) \<and>
   (\<not> getElementById (doc d) ''total-profit'' \<longrightarrow> completed (on_performance_update now p d))"
proof (intro conjI impI)
  assume np: "total_profit p = None"
  show "performanceData (state_of (on_performance_update now p d)) = p"
    and "body (doc (state_of (on_performance_update now p d))) = body (doc d)"
    by simp_all
  {
    assume el: "getElementById (doc d) ''total-profit''"
    have n: "\<not> completed (on_performance_update now p d)"
      using np el by (simp add: on_performance_update_completed)
    note th = on_performance_update_thrown [OF n]
    show "\<exists>d1. on_performance_update now p d = Thrown TypeError d1"
      using th by simp
    show "performanceChart (state_of (on_performance_update now p d)) = performanceChart d"
      using th by simp
    show "distributionChart (state_of (on_performance_update now p d)) = distributionChart d"
      using th by simp
    have m: "\<not> completed (loadInitialData_try now (Resolved sigs) (Resolved p) cr d)"
      using np el by (simp add: loadInitialData_try_completed)
    note fr = loadInitialData_try_frame [OF m]
    show "completed (loadInitialData now (Resolved sigs) (Resolved p) cr d)"
      by (rule loadInitialData_completed)
    show "body (doc (state_of (loadInitialData now (Resolved sigs) (Resolved p) cr d))) =
        body (doc d) @ [error_badge]"
      using m fr by (simp add: loadInitialData_state showNotification_body)
    show "signals (state_of (loadInitialData now (Resolved sigs) (Resolved p) cr d)) = sigs"
      by (rule loadInitialData_signals)
    show "performanceData (state_of (loadInitialData now (Resolved sigs) (Resolved p) cr d)) = p"
      using m by (simp add: loadInitialData_state loadInitialData_try_performance)
    show "connectionStats (state_of (loadInitialData now (Resolved sigs) (Resolved p) cr d)) =
        connectionStats d"
      using m fr by (simp add: loadInitialData_state)
  }
  assume "\<not> getElementById (doc d) ''total-profit''"
  then show "completed (on_performance_update now p d)"
    by (simp add: on_performance_update_completed)
qed

text \<open>
  A pushed performance update without \<open>total_profit\<close> on the full page: the handler
  throws, the snapshot held before is gone, and no notification is shown.
\<close>

theorem missing_total_profit_crashes_push:
  "\<not> completed (on_performance_update ''12:00:00'' no_profit (new_dashboard dashboard_page)) \<and>
   performanceData (state_of
     (on_performance_update ''12:00:00'' no_profit (new_dashboard dashboard_page))) \<noteq>
     performanceData (new_dashboard dashboard_page) \<and>
   body (doc (state_of
     (on_performance_update ''12:00:00'' no_profit (new_dashboard dashboard_page)))) = []"
proof -
  have a: "\<not> completed (on_performance_update ''12:00:00'' no_profit (new_dashboard dashboard_page))"
    by (simp add: on_performance_update_completed new_dashboard_fields dashboard_page_present
          no_profit_def)
  have b: "no_profit \<noteq> performanceData (new_dashboard dashboard_page)"
    by (simp add: new_dashboard_def initializeCharts_def Let_def no_profit_def)
  have c: "body (doc (new_dashboard dashboard_page)) = []"
    by (simp add: new_dashboard_fields dashboard_page_def)
  show ?thesis
    using a b c by simp
qed

theorem missing_total_profit_witness:
  "total_profit no_profit = None \<and>
   getElementById (doc (new_dashboard dashboard_page)) ''total-profit'' \<and>
   performanceData (state_of
     (on_performance_update ''12:00:00'' no_profit (new_dashboard dashboard_page))) = no_profit \<and>
   (\<exists>d1. on_performance_update ''12:00:00'' no_profit (new_dashboard dashboard_page) =
      Thrown TypeError d1) \<and>
   body (doc (state_of (loadInitialData ''12:00:00'' (Resolved [eurusd_call]) (Resolved no_profit)
     (Resolved online) (new_dashboard dashboard_page)))) = [error_badge] \<and>
   performanceData (state_of (loadInitialData ''12:00:00'' (Resolved [eurusd_call])
     (Resolved no_profit) (Resolved online) (new_dashboard dashboard_page))) = no_profit"
proof -
  have np: "total_profit no_profit = None"
    by (simp add: no_profit_def)
  have el: "getElementById (doc (new_dashboard dashboard_page)) ''total-profit''"
    by (simp add: new_dashboard_fields dashboard_page_present)
  show ?thesis
    using missing_total_profit_is_not_rejected
      [OF np, of "''12:00:00''" "new_dashboard dashboard_page" "[eurusd_call]" "Resolved online"]
      np el
    by (simp add: new_dashboard_fields dashboard_page_def)
qed

section \<open>Points of the time series and the events that add them\<close>

lemma updateCharts_chart_of_update:
  "performanceChart d1 = performanceChart d \<Longrightarrow> performanceData d1 = p \<Longrightarrow>
   performanceChart (updateCharts now d1) =
     performanceChart (updateCharts now (d\<lparr>performanceData := p\<rparr>))"
  by (simp add: updateCharts_performanceChart split: option.splits)

lemma on_performance_update_pushes:
  "completed (on_performance_update now p d) \<Longrightarrow>
   performanceChart (state_of (on_performance_update now p d)) =
     performanceChart (updateCharts now (d\<lparr>performanceData := p\<rparr>))"
  by (simp add: on_performance_update_chart updateCharts_performanceChart split: option.splits)

lemma loadInitialData_pushes:
  assumes "completed (loadInitialData_try now sr (Resolved p) cr d)"
  shows "performanceChart (state_of (loadInitialData now sr (Resolved p) cr d)) =
     performanceChart (updateCharts now (d\<lparr>performanceData := p\<rparr>))"
proof -
  obtain sigs conn where r: "sr = Resolved sigs" "cr = Resolved conn"
    and ok: "\<not> (getElementById (doc d) ''total-profit'' \<and> total_profit p = None)"
    using assms by (auto simp: loadInitialData_try_completed)
  show ?thesis
    unfolding r loadInitialData_all_resolved [OF ok] state_of.simps
    by (rule updateCharts_chart_of_update) simp_all
qed

lemma loadInitialData_no_push:
  assumes "\<not> completed (loadInitialData_try now sr pr cr d)"
  shows "performanceChart (state_of (loadInitialData now sr pr cr d)) = performanceChart d"
  using assms loadInitialData_try_frame [OF assms] by (simp add: loadInitialData_state)

lemma other_handlers_chart [simp]:
  "performanceChart (on_connection_update stats d) = performanceChart d"
  "performanceChart (on_disconnect d) = performanceChart d"
  "performanceChart (filterSignals a d) = performanceChart d"
  "performanceChart (searchSignals q d) = performanceChart d"
  by (simp_all add: on_connection_update_def on_disconnect_def filterSignals_def searchSignals_def)

text \<open>
  Claim C10, as the code has it. The time series gets one point, labelled with the
  current time and carrying \<open>total_profit\<close>, from every handler run that applies a
  performance snapshot and reaches its end: a \<open>performance_update\<close> whose rendering
  does not throw, and a first load or refresh whose three requests all succeed and
  whose rendering does not throw, whether or not the pulled values are new. A run that
  stops early leaves the series as it was even though the snapshot is already
  replaced, and no other event touches the series.
\<close>

theorem metric_point_per_completed_update:
  "(completed (handle now (PerformanceUpdate p) d) \<longleftrightarrow>
      \<not> (getElementById (doc d) ''total-profit'' \<and> total_profit p = None)) \<and>
   (completed (handle now (PerformanceUpdate p) d) \<longrightarrow>
      performanceChart (state_of (handle now (PerformanceUpdate p) d)) =
        performanceChart (updateCharts now (d\<lparr>performanceData := p\<rparr>))) \<and>
   (\<not> completed (handle now (PerformanceUpdate p) d) \<longrightarrow>
      performanceChart (state_of (handle now (PerformanceUpdate p) d)) = performanceChart d) \<and>
   (completed (loadInitialData_try now sr (Resolved p) cr d) \<longleftrightarrow>
      (\<exists>sigs conn. sr = Resolved sigs \<and> cr = Resolved conn) \<and>
      \<not> (getElementById (doc d) ''total-profit'' \<and> total_profit p = None)) \<and>
   (completed (loadInitialData_try now sr (Resolved p) cr d) \<longrightarrow>
      performanceChart (state_of (handle now (Load sr (Resolved p) cr) d)) =
        performanceChart (updateCharts now (d\<lparr>performanceData := p\<rparr>))) \<and>
   (\<not> completed (loadInitialData_try now sr pr cr d) \<longrightarrow>
      performanceChart (state_of (handle now (Load sr pr cr) d)) = performanceChart d) \<and>
   \<not> completed (loadInitialData_try now sr Rejected cr d) \<and>
   performanceChart (state_of (handle now (ConnectionUpdate stats) d)) = performanceChart d \<and>
   performanceChart (state_of (handle now (NewSignal s) d)) = performanceChart d \<and>
   performanceChart (state_of (handle now Connect d)) = performanceChart d \<and>
   performanceChart (state_of (handle now Disconnect d)) = performanceChart d \<and>
   performanceChart (state_of (handle now (FilterAsset a) d)) = performanceChart d \<and>
   performanceChart (state_of (handle now (SearchInput q) d)) = performanceChart d \<and>
   performanceChart (state_of (handle now Tick d)) = performanceChart d \<and>
   (performanceChart d = Some ch \<longrightarrow>
      performanceChart (updateCharts now (d\<lparr>performanceData := p\<rparr>)) =
        Some (if length (labels ch) < 20
              then \<lparr>labels = labels ch @ [now], points = points ch @ [total_profit p]\<rparr>
              else \<lparr>labels = tl (labels ch @ [now]),
                    points = tl (points ch @ [total_profit p])\<rparr>))"
proof (intro conjI impI)
  show "completed (handle now (PerformanceUpdate p) d) \<longleftrightarrow>
      \<not> (getElementById (doc d) ''total-profit'' \<and> total_profit p = None)"
    by (simp add: on_performance_update_completed)
  show "completed (loadInitialData_try now sr (Resolved p) cr d) \<longleftrightarrow>
      (\<exists>sigs conn. sr = Resolved sigs \<and> cr = Resolved conn) \<and>
      \<not> (getElementById (doc d) ''total-profit'' \<and> total_profit p = None)"
    by (auto simp: loadInitialData_try_completed)
  show "\<not> completed (loadInitialData_try now sr Rejected cr d)"
    by (simp add: loadInitialData_try_completed)
next
  assume "completed (handle now (PerformanceUpdate p) d)"
  then show "performanceChart (state_of (handle now (PerformanceUpdate p) d)) =
        performanceChart (updateCharts now (d\<lparr>performanceData := p\<rparr>))"
    by (simp add: on_performance_update_pushes)
next
  assume "\<not> completed (handle now (PerformanceUpdate p) d)"
  then show "performanceChart (state_of (handle now (PerformanceUpdate p) d)) = performanceChart d"
    using on_performance_update_thrown [of now p d] by simp
next
  assume "completed (loadInitialData_try now sr (Resolved p) cr d)"
  then show "performanceChart (state_of (handle now (Load sr (Resolved p) cr) d)) =
        performanceChart (updateCharts now (d\<lparr>performanceData := p\<rparr>))"
    by (simp add: loadInitialData_pushes)
next
  assume "\<not> completed (loadInitialData_try now sr pr cr d)"
  then show "performanceChart (state_of (handle now (Load sr pr cr) d)) = performanceChart d"
    by (simp add: loadInitialData_no_push)
next
  assume "performanceChart d = Some ch"
  then show "performanceChart (updateCharts now (d\<lparr>performanceData := p\<rparr>)) =
        Some (if length (labels ch) < 20
              then \<lparr>labels = labels ch @ [now], points = points ch @ [total_profit p]\<rparr>
              else \<lparr>labels = tl (labels ch @ [now]),
                    points = tl (points ch @ [total_profit p])\<rparr>)"
    by (simp add: updateCharts_performanceChart)
qed simp_all

text \<open>
  A refresh whose connection request fails: the pulled snapshot is the one held
  afterwards, and the series has no point for it.
\<close>

theorem applied_update_without_point:
  "performanceData (state_of (handle ''12:00:00''
     (Load (Resolved []) (Resolved six_of_ten) Rejected) (new_dashboard dashboard_page))) =
     six_of_ten \<and>
   chart_points (state_of (handle ''12:00:00''
     (Load (Resolved []) (Resolved six_of_ten) Rejected) (new_dashboard dashboard_page))) = []"
proof -
  have n: "\<not> completed (loadInitialData_try ''12:00:00'' (Resolved []) (Resolved six_of_ten)
      Rejected (new_dashboard dashboard_page))"
    by (simp add: loadInitialData_try_completed)
  show ?thesis
    using n loadInitialData_no_push [OF n]
    by (simp add: chart_points_def new_dashboard_charts loadInitialData_state
          loadInitialData_try_performance)
qed

theorem metric_point_witness:
  "completed (handle ''12:00:00'' (PerformanceUpdate six_of_ten) (new_dashboard dashboard_page)) \<and>
   performanceChart (state_of (handle ''12:00:00'' (PerformanceUpdate six_of_ten)
     (new_dashboard dashboard_page))) =
     Some \<lparr>labels = [''12:00:00''], points = [Some (25 / 2)]\<rparr> \<and>
   completed (loadInitialData_try ''12:00:00'' (Resolved []) (Resolved six_of_ten)
     (Resolved online) (new_dashboard dashboard_page)) \<and>
   performanceChart (state_of (handle ''12:00:00''
     (Load (Resolved []) (Resolved six_of_ten) (Resolved online)) (new_dashboard dashboard_page))) =
     Some \<lparr>labels = [''12:00:00''], points = [Some (25 / 2)]\<rparr> \<and>
   performanceChart (state_of (handle ''12:00:00'' Tick (new_dashboard dashboard_page))) =
     Some \<lparr>labels = [], points = []\<rparr>"
proof -
  have ok: "\<not> (getElementById (doc (new_dashboard dashboard_page)) ''total-profit'' \<and>
      total_profit six_of_ten = None)"
    by (simp add: six_of_ten_def)
  have tp: "total_profit six_of_ten = Some (25 / 2)"
    by (simp add: six_of_ten_def)
  note t = metric_point_per_completed_update
    [of "''12:00:00''" six_of_ten "new_dashboard dashboard_page" "Resolved []" "Resolved online"
        "Resolved six_of_ten" online eurusd_call "''all''" "''x''" "\<lparr>labels = [], points = []\<rparr>"]
  show ?thesis
    using t ok tp by (simp add: new_dashboard_charts)
qed

section \<open>Rounding to double precision\<close>

lemma bits_bounds: "0 < n \<Longrightarrow> 2 ^ (bits n - 1) \<le> n \<and> n < 2 ^ bits n"
proof (induction n rule: bits.induct)
  case (1 n)
  show ?case
  proof (cases "n div 2 = 0")
    case True
    with "1.prems" have "n = 1" by (simp add: div_eq_0_iff)
    then show ?thesis by (simp add: bits.simps)
  next
    case False
    then have pos: "0 < n div 2" by simp
    from "1.prems" have n0: "n \<noteq> 0" by simp
    have ih: "2 ^ (bits (n div 2) - 1) \<le> n div 2 \<and> n div 2 < 2 ^ bits (n div 2)"
      using "1.IH" [OF n0 pos] .
    have b: "bits n = Suc (bits (n div 2))"
      using n0 by (subst bits.simps) simp
    have bp: "0 < bits (n div 2)"
      using pos by (subst bits.simps) simp
    then have e: "(2::nat) ^ bits (n div 2) = 2 * 2 ^ (bits (n div 2) - 1)"
      by (cases "bits (n div 2)") simp_all
    have lo: "2 ^ bits (n div 2) \<le> n"
      using ih e by (simp only:) arith
    have hi: "n < 2 * 2 ^ bits (n div 2)"
      using ih by arith
    show ?thesis
      using lo hi by (simp add: b)
  qed
qed

lemma pow2_powi: "pow2 k = 2 powi k"
  by (simp add: pow2_def power_int_def inverse_eq_divide power_one_over)

lemma pow2_pos [simp]: "0 < pow2 k"
  by (simp add: pow2_powi)

lemma pow2_add: "pow2 (a + b) = pow2 a * pow2 b"
  by (simp add: pow2_powi power_int_add)

lemma pow2_of_nat: "pow2 (int n) = 2 ^ n"
  by (simp add: pow2_powi)

lemma pow2_diff_nat: "pow2 (int a - int b) = 2 ^ a / 2 ^ b"
  by (simp add: pow2_powi power_int_diff)

lemma pow2_strict_mono: "a < b \<Longrightarrow> pow2 a < pow2 b"
  by (simp add: pow2_powi power_int_strict_increasing)

lemma pow2_mono: "a \<le> b \<Longrightarrow> pow2 a \<le> pow2 b"
  by (simp add: pow2_powi power_int_increasing)

lemma pow2_one: "pow2 1 = 2"
  by (simp add: pow2_def)

lemma pow2_Suc: "pow2 (a + 1) = 2 * pow2 a"
  by (simp add: pow2_add pow2_one)

lemma binade_bounds:
  assumes "x \<noteq> 0"
  shows "pow2 (binade x) \<le> \<bar>x\<bar> \<and> \<bar>x\<bar> < pow2 (binade x + 1)"
proof -
  obtain p q where pq: "quotient_of \<bar>x\<bar> = (p, q)" by (cases "quotient_of \<bar>x\<bar>")
  have q: "0 < q" using pq by (rule quotient_of_denom_pos)
  have x: "\<bar>x\<bar> = of_int p / of_int q" using pq by (rule quotient_of_div)
  have "0 < \<bar>x\<bar>" using assms by simp
  then have p: "0 < p" using q x by (simp add: zero_less_divide_iff)
  let ?bp = "bits (nat p)" and ?bq = "bits (nat q)"
  let ?d = "int ?bp - int ?bq"
  have bp: "2 ^ (?bp - 1) \<le> nat p \<and> nat p < 2 ^ ?bp" using p by (intro bits_bounds) simp
  have bq: "2 ^ (?bq - 1) \<le> nat q \<and> nat q < 2 ^ ?bq" using q by (intro bits_bounds) simp
  have bp0: "0 < ?bp" using p by (subst bits.simps) simp
  have bq0: "0 < ?bq" using q by (subst bits.simps) simp
  have P: "(2::rat) ^ (?bp - 1) \<le> of_int p" "of_int p < (2::rat) ^ ?bp"
  proof -
    have "of_nat (2 ^ (?bp - 1)) \<le> (of_nat (nat p) :: rat)" using bp by (simp only: of_nat_le_iff)
    then show "(2::rat) ^ (?bp - 1) \<le> of_int p" using p by simp
    have "(of_nat (nat p) :: rat) < of_nat (2 ^ ?bp)" using bp by (simp only: of_nat_less_iff)
    then show "of_int p < (2::rat) ^ ?bp" using p by simp
  qed
  have Q: "(2::rat) ^ (?bq - 1) \<le> of_int q" "of_int q < (2::rat) ^ ?bq"
  proof -
    have "of_nat (2 ^ (?bq - 1)) \<le> (of_nat (nat q) :: rat)" using bq by (simp only: of_nat_le_iff)
    then show "(2::rat) ^ (?bq - 1) \<le> of_int q" using q by simp
    have "(of_nat (nat q) :: rat) < of_nat (2 ^ ?bq)" using bq by (simp only: of_nat_less_iff)
    then show "of_int q < (2::rat) ^ ?bq" using q by simp
  qed
  have qpos: "(0::rat) < of_int q" using q by simp
  have ppos: "(0::rat) \<le> of_int p" using p by simp
  have up: "\<bar>x\<bar> < pow2 (?d + 1)"
  proof -
    have "pow2 (?d + 1) = 2 ^ ?bp / 2 ^ (?bq - 1)"
      using bq0 pow2_diff_nat [of ?bp "?bq - 1"] by (simp add: of_nat_diff algebra_simps)
    moreover have "of_int p / of_int q < (2::rat) ^ ?bp / 2 ^ (?bq - 1)"
      using P(2) Q(1) ppos by (intro frac_less) simp_all
    ultimately show ?thesis using x by simp
  qed
  have low: "pow2 (?d - 1) < \<bar>x\<bar>"
  proof -
    have "pow2 (?d - 1) = 2 ^ (?bp - 1) / 2 ^ ?bq"
      using bp0 pow2_diff_nat [of "?bp - 1" ?bq] by (simp add: of_nat_diff algebra_simps)
    moreover have "(2::rat) ^ (?bp - 1) / 2 ^ ?bq < of_int p / of_int q"
      using P(1) Q(2) qpos by (intro frac_less2) simp_all
    ultimately show ?thesis using x by simp
  qed
  show ?thesis
  proof (cases "pow2 ?d \<le> \<bar>x\<bar>")
    case True
    then have "binade x = ?d" by (simp add: binade_def pq)
    with True up show ?thesis by simp
  next
    case False
    then have "binade x = ?d - 1" by (simp add: binade_def pq)
    with False low show ?thesis by simp
  qed
qed

lemma binade_unique:
  assumes "pow2 e \<le> \<bar>x\<bar>" and "\<bar>x\<bar> < pow2 (e + 1)"
  shows "binade x = e"
proof -
  have "0 < pow2 e" by simp
  then have "0 < \<bar>x\<bar>" using assms(1) by (rule less_le_trans)
  then have nz: "x \<noteq> 0" by simp
  note b = binade_bounds [OF nz]
  have "pow2 (binade x) < pow2 (e + 1)" using b assms(2) by simp
  then have 1: "binade x < e + 1"
    using pow2_mono [of "e + 1" "binade x"] by (cases "binade x < e + 1") simp_all
  have "pow2 e < pow2 (binade x + 1)" using b assms(1) by simp
  then have 2: "e < binade x + 1"
    using pow2_mono [of "binade x + 1" e] by (cases "e < binade x + 1") simp_all
  from 1 2 show ?thesis by simp
qed

lemma round_even_eq:
  assumes "of_int n - 1 / 2 < x" and "x < of_int n + 1 / 2"
  shows "round_even x = n"
proof -
  let ?f = "\<lfloor>x\<rfloor>"
  have lo: "of_int ?f \<le> x" by (rule of_int_floor_le)
  have hi: "x < of_int ?f + 1" using floor_correct [of x] by simp
  consider "x - of_int ?f < 1 / 2" | "1 / 2 < x - of_int ?f" | "x - of_int ?f = 1 / 2" by linarith
  then show ?thesis
  proof cases
    case 1
    have "(of_int n :: rat) < of_int ?f + 1" using assms(1) 1 by linarith
    then have "(of_int n :: rat) < of_int (?f + 1)" by simp
    then have a: "n < ?f + 1" by (simp only: of_int_less_iff)
    have "(of_int ?f :: rat) < of_int n + 1" using assms(2) lo by linarith
    then have "(of_int ?f :: rat) < of_int (n + 1)" by simp
    then have b: "?f < n + 1" by (simp only: of_int_less_iff)
    from a b have "?f = n" by simp
    with 1 show ?thesis by (simp add: round_even_def Let_def)
  next
    case 2
    have "(of_int ?f :: rat) < of_int n" using assms(2) 2 by linarith
    then have a: "?f < n" by (simp only: of_int_less_iff)
    have "(of_int n :: rat) < of_int ?f + 2" using assms(1) hi by linarith
    then have "(of_int n :: rat) < of_int (?f + 2)" by simp
    then have b: "n < ?f + 2" by (simp only: of_int_less_iff)
    from a b have "?f + 1 = n" by simp
    with 2 show ?thesis by (simp add: round_even_def Let_def)
  next
    case 3
    have "(of_int ?f :: rat) < of_int n" using assms(2) 3 by linarith
    then have a: "?f < n" by (simp only: of_int_less_iff)
    have "(of_int n :: rat) < of_int ?f + 1" using assms(1) 3 by linarith
    then have "(of_int n :: rat) < of_int (?f + 1)" by simp
    then have b: "n < ?f + 1" by (simp only: of_int_less_iff)
    from a b show ?thesis by simp
  qed
qed

lemma fl_eval:
  assumes "0 < x" and "pow2 e \<le> x" and "x < pow2 (e + 1)" and "- 1074 \<le> e - 52"
    and "round_even (x / pow2 (e - 52)) = n"
  shows "fl x = of_int n * pow2 (e - 52)"
proof -
  have b: "binade x = e" using assms(1,2,3) by (intro binade_unique) simp_all
  have m: "max (e - 52) (- 1074) = e - 52" using assms(4) by simp
  show ?thesis using assms(1,5) by (simp add: fl_def b m)
qed

lemma show_nat_nonempty: "show_nat n \<noteq> []"
  by (subst show_nat.simps) simp

lemma toFixed_1:
  assumes "0 \<le> x"
  shows "toFixed 1 x =
     show_nat (nat \<lfloor>x * 10 + 1 / 2\<rfloor> div 10) @ ''.'' @
       [digit_char (nat \<lfloor>x * 10 + 1 / 2\<rfloor> mod 10)]"
proof (cases "nat \<lfloor>x * 10 + 1 / 2\<rfloor> < 10")
  let ?n = "nat \<lfloor>x * 10 + 1 / 2\<rfloor>"
  case True
  then have m: "show_nat ?n = [digit_char ?n]" by (subst show_nat.simps) simp
  have z: "show_nat 0 = ''0''"
    by (subst show_nat.simps) (simp add: digit_char_def)
  show ?thesis
    using assms True by (simp add: toFixed_def Let_def m z)
next
  let ?n = "nat \<lfloor>x * 10 + 1 / 2\<rfloor>"
  case False
  then have m: "show_nat ?n = show_nat (?n div 10) @ [digit_char (?n mod 10)]"
    by (subst show_nat.simps) simp
  have "show_nat (?n div 10) \<noteq> []" by (rule show_nat_nonempty)
  then have "Suc 0 \<le> length (show_nat (?n div 10))"
    by (cases "show_nat (?n div 10)") simp_all
  then show ?thesis
    using assms by (simp add: toFixed_def Let_def m)
qed

lemma fdiv_6_10: "fdiv 6 10 = 5404319552844595 / 9007199254740992"
proof -
  have "fl (6 / 10) = of_int 5404319552844595 * pow2 (- 1 - 52)"
  proof (rule fl_eval)
    show "round_even (6 / 10 / pow2 (- 1 - 52)) = 5404319552844595"
      by (rule round_even_eq) (simp_all add: pow2_def)
  qed (simp_all add: pow2_def)
  then show ?thesis by (simp add: fdiv_def pow2_def)
qed

lemma fmul_60: "fmul (5404319552844595 / 9007199254740992) 100 = 60"
proof -
  have "fl (5404319552844595 / 9007199254740992 * 100) = of_int 8444249301319680 * pow2 (5 - 52)"
  proof (rule fl_eval)
    show "round_even (5404319552844595 / 9007199254740992 * 100 / pow2 (5 - 52)) = 8444249301319680"
      by (rule round_even_eq) (simp_all add: pow2_def)
  qed (simp_all add: pow2_def)
  then show ?thesis by (simp add: fmul_def pow2_def)
qed

lemma toFixed_60: "toFixed 1 60 = ''60.0''"
proof -
  have "\<lfloor>(60::rat) * 10 + 1 / 2\<rfloor> = 600"
    by (rule floor_unique) simp_all
  then have n: "nat \<lfloor>(60::rat) * 10 + 1 / 2\<rfloor> = 600" by simp
  have "toFixed 1 60 = show_nat (600 div 10) @ ''.'' @ [digit_char (600 mod 10)]"
    using toFixed_1 [of 60] unfolding n by simp
  then show ?thesis
    by (simp add: show_nat.simps digit_char_def)
qed

lemma winRateText_six_of_ten:
  assumes "total_signals p = 10" and "winning_signals p = 6"
  shows "winRateText p = ''60.0%''"
proof -
  have a: "fmul (fdiv (of_int (winning_signals p)) (of_int (total_signals p))) 100 = 60"
    using assms by (simp add: fdiv_6_10 fmul_60)
  show ?thesis
    unfolding winRateText_def a toFixed_60 using assms by simp
qed

lemma pow2_nonzero [simp]: "pow2 k \<noteq> 0"
  by (metis pow2_pos less_irrefl)

lemma pow2_nonneg [simp]: "0 \<le> pow2 k"
  by (rule less_imp_le) (rule pow2_pos)

lemma pow2_abs [simp]: "\<bar>pow2 k\<bar> = pow2 k"
  by (simp add: abs_of_pos)

lemma round_even_error: "\<bar>of_int (round_even y) - y\<bar> \<le> 1 / 2"
proof -
  let ?f = "\<lfloor>y\<rfloor>"
  have lo: "of_int ?f \<le> y" by (rule of_int_floor_le)
  have hi: "y < of_int ?f + 1" using floor_correct [of y] by simp
  consider "y - of_int ?f < 1 / 2" | "1 / 2 < y - of_int ?f" | "y - of_int ?f = 1 / 2" by linarith
  then show ?thesis
  proof cases
    case 1
    then have "round_even y = ?f" by (simp add: round_even_def Let_def)
    with 1 lo show ?thesis by simp
  next
    case 2
    then have "round_even y = ?f + 1" by (simp add: round_even_def Let_def)
    with 2 hi show ?thesis by simp
  next
    case 3
    then have "round_even y = ?f \<or> round_even y = ?f + 1" by (simp add: round_even_def Let_def)
    with 3 show ?thesis by auto
  qed
qed

lemma fl_error:
  assumes "x \<noteq> 0" and "- 1022 \<le> binade x"
  shows "\<bar>fl x - x\<bar> \<le> \<bar>x\<bar> / 2 ^ 53"
proof -
  let ?u = "pow2 (binade x - 52)"
  let ?n = "round_even (\<bar>x\<bar> / ?u)"
  have m: "max (binade x - 52) (- 1074) = binade x - 52" using assms(2) by simp
  have f: "fl x = sgn x * of_int ?n * ?u" using assms(1) by (simp add: fl_def m Let_def)
  have x: "x = sgn x * \<bar>x\<bar>" by (simp add: mult.commute linordered_idom_class.abs_sgn)
  have "fl x - x = sgn x * (of_int ?n * ?u - \<bar>x\<bar>)"
    by (subst (2) x) (simp add: f algebra_simps)
  then have "\<bar>fl x - x\<bar> = \<bar>of_int ?n * ?u - \<bar>x\<bar>\<bar>"
    using assms(1) by (simp add: abs_mult abs_sgn_eq)
  also have "of_int ?n * ?u - \<bar>x\<bar> = (of_int ?n - \<bar>x\<bar> / ?u) * ?u"
    by (simp add: algebra_simps)
  also have "\<bar>(of_int ?n - \<bar>x\<bar> / ?u) * ?u\<bar> = \<bar>of_int ?n - \<bar>x\<bar> / ?u\<bar> * ?u"
    by (simp add: abs_mult)
  also have "\<dots> \<le> 1 / 2 * ?u"
    using round_even_error [of "\<bar>x\<bar> / ?u"] by (intro mult_right_mono) simp_all
  also have "?u = pow2 (binade x) / 2 ^ 52"
    using pow2_add [of "binade x" "- 52"] by (simp add: pow2_def)
  also have "1 / 2 * (pow2 (binade x) / 2 ^ 52) = pow2 (binade x) / 2 ^ 53"
    by simp
  also have "\<dots> \<le> \<bar>x\<bar> / 2 ^ 53"
    using binade_bounds [OF assms(1)] by (simp add: divide_right_mono)
  finally show ?thesis .
qed

lemma binade_lower:
  assumes "pow2 k \<le> \<bar>x\<bar>"
  shows "k \<le> binade x"
proof (rule ccontr)
  assume "\<not> k \<le> binade x"
  then have "binade x + 1 \<le> k" by simp
  then have "pow2 (binade x + 1) \<le> pow2 k" by (rule pow2_mono)
  moreover have "0 < pow2 k" by simp
  then have "0 < \<bar>x\<bar>" using assms by (rule less_le_trans)
  then have "x \<noteq> 0" by simp
  then have "\<bar>x\<bar> < pow2 (binade x + 1)" using binade_bounds by simp
  ultimately show False using assms by simp
qed

lemma fl_zero [simp]: "fl 0 = 0"
  by (simp add: fl_def)

lemma fl_error_pos:
  assumes "pow2 (- 1022) \<le> x"
  shows "\<bar>fl x - x\<bar> \<le> x / 2 ^ 53"
proof -
  have "0 < pow2 (- 1022)" by simp
  then have pos: "0 < x" using assms by (rule less_le_trans)
  have "- 1022 \<le> binade x" using assms pos by (intro binade_lower) simp
  then show ?thesis using fl_error [of x] pos by simp
qed

lemma win_rate_accuracy:
  fixes w t :: int
  assumes "0 < t" and "0 \<le> w" and "w \<le> 2 ^ 53" and "t \<le> 2 ^ 53"
  shows "0 \<le> fmul (fdiv (of_int w) (of_int t)) 100 \<and>
         \<bar>fmul (fdiv (of_int w) (of_int t)) 100 - 100 * of_int w / of_int t\<bar>
           \<le> (100 * of_int w / of_int t) / 2 ^ 51"
proof (cases "w = 0")
  case True
  then show ?thesis by (simp add: fdiv_def fmul_def)
next
  case False
  define q :: rat where "q = of_int w / of_int t"
  define a where "a = fl q"
  define y where "y = a * 100"
  define x where "x = fl y"
  have w1: "(1::rat) \<le> of_int w" using False assms(2) by simp
  have t1: "(0::rat) < of_int t" using assms(1) by simp
  have t2: "(of_int t :: rat) \<le> 2 ^ 53"
  proof -
    have "(of_int t :: rat) \<le> of_int (2 ^ 53)" using assms(4) by (simp only: of_int_le_iff)
    then show ?thesis by simp
  qed
  have "1 / 2 ^ 53 \<le> 1 / (of_int t :: rat)"
    using t1 t2 by (intro divide_left_mono) simp_all
  also have "\<dots> \<le> q"
    unfolding q_def using w1 t1 by (intro divide_right_mono) simp_all
  finally have qlow: "1 / 2 ^ 53 \<le> q" .
  have p53: "pow2 (- 53) = 1 / 2 ^ 53" by (simp add: pow2_def)
  have m: "pow2 (- 1022) \<le> pow2 (- 53)" by (rule pow2_mono) simp
  have qpos: "0 < q" using qlow by (rule less_le_trans [rotated]) simp
  have ea: "\<bar>a - q\<bar> \<le> q / 2 ^ 53"
    unfolding a_def using qlow m p53 by (intro fl_error_pos) simp
  have small: "q / 2 ^ 53 \<le> q / 2"
    using qpos by (intro divide_left_mono) simp_all
  have alow: "q / 2 \<le> a" using ea small by linarith
  have ahigh: "a \<le> 2 * q" using ea small qpos by linarith
  have ylow: "1 / 2 ^ 53 \<le> y"
  proof -
    define eps :: rat where "eps = 1 / 2 ^ 53"
    have "0 < eps" by (simp add: eps_def)
    moreover have "eps \<le> q" using qlow by (simp only: eps_def)
    ultimately have "eps \<le> a * 100" using alow by linarith
    then show ?thesis by (simp only: eps_def y_def)
  qed
  have ey: "\<bar>x - y\<bar> \<le> y / 2 ^ 53"
    unfolding x_def using ylow m p53 by (intro fl_error_pos) simp
  have ypos: "0 < y" using ylow by (rule less_le_trans [rotated]) simp
  have ysmall: "y / 2 ^ 53 \<le> y"
    using ypos by (simp add: divide_le_eq_1_pos [symmetric] field_simps)
  have xpos: "0 \<le> x" using ey ysmall by linarith
  have y200: "y / 2 ^ 53 \<le> 200 * (q / 2 ^ 53)"
    using ahigh unfolding y_def by (simp add: divide_right_mono)
  have q51: "400 * (q / 2 ^ 53) = 100 * q / 2 ^ 51" by simp
  have q0: "0 \<le> q / 2 ^ 53" using qpos by simp
  have "\<bar>x - 100 * q\<bar> \<le> 400 * (q / 2 ^ 53)"
    using ey ea y200 q0 unfolding y_def by linarith
  then have "\<bar>x - 100 * q\<bar> \<le> 100 * q / 2 ^ 51" unfolding q51 .
  then show ?thesis
    using xpos by (simp add: x_def y_def a_def q_def fmul_def fdiv_def)
qed

lemma nearest_tenth:
  assumes "0 \<le> x"
  shows "\<bar>of_nat (nat \<lfloor>x * 10 + 1 / 2\<rfloor>) / 10 - x\<bar> \<le> (1 / 20 :: rat)"
proof -
  let ?k = "\<lfloor>x * 10 + 1 / 2\<rfloor>"
  have "0 \<le> ?k" using assms by simp
  then have n: "(of_nat (nat ?k) :: rat) = of_int ?k" by simp
  have "of_int ?k \<le> x * 10 + 1 / 2" by (rule of_int_floor_le)
  moreover have "x * 10 + 1 / 2 < of_int ?k + 1" using floor_correct [of "x * 10 + 1 / 2"] by simp
  ultimately show ?thesis unfolding n by linarith
qed

lemma fdiv_23_80: "fdiv 23 80 = 2589569785738035 / 9007199254740992"
proof -
  have "fl (23 / 80) = of_int 5179139571476070 * pow2 (- 2 - 52)"
  proof (rule fl_eval)
    show "round_even (23 / 80 / pow2 (- 2 - 52)) = 5179139571476070"
      by (rule round_even_eq) (simp_all add: pow2_def)
  qed (simp_all add: pow2_def)
  then show ?thesis by (simp add: fdiv_def pow2_def)
qed

lemma fmul_23_80:
  "fmul (2589569785738035 / 9007199254740992) 100 = 8092405580431359 / 281474976710656"
proof -
  have "fl (2589569785738035 / 9007199254740992 * 100) =
      of_int 8092405580431359 * pow2 (4 - 52)"
  proof (rule fl_eval)
    show "round_even (2589569785738035 / 9007199254740992 * 100 / pow2 (4 - 52)) =
        8092405580431359"
      by (rule round_even_eq) (simp_all add: pow2_def)
  qed (simp_all add: pow2_def)
  then show ?thesis by (simp add: fmul_def pow2_def)
qed

lemma toFixed_below_tie: "toFixed 1 (8092405580431359 / 281474976710656) = ''28.7''"
proof -
  have "\<lfloor>(8092405580431359 / 281474976710656 :: rat) * 10 + 1 / 2\<rfloor> = 287"
    by (rule floor_unique) simp_all
  then have n: "nat \<lfloor>(8092405580431359 / 281474976710656 :: rat) * 10 + 1 / 2\<rfloor> = 287"
    by simp
  have "toFixed 1 (8092405580431359 / 281474976710656) =
      show_nat (287 div 10) @ ''.'' @ [digit_char (287 mod 10)]"
    using toFixed_1 [of "8092405580431359 / 281474976710656"] unfolding n by simp
  then show ?thesis
    by (simp add: show_nat.simps digit_char_def)
qed

lemma toFixed_at_tie: "toFixed 1 (100 * 23 / 80) = ''28.8''"
proof -
  have "\<lfloor>(100 * 23 / 80 :: rat) * 10 + 1 / 2\<rfloor> = 288"
    by (rule floor_unique) simp_all
  then have n: "nat \<lfloor>(100 * 23 / 80 :: rat) * 10 + 1 / 2\<rfloor> = 288"
    by simp
  have "toFixed 1 (100 * 23 / 80) =
      show_nat (288 div 10) @ ''.'' @ [digit_char (288 mod 10)]"
    using toFixed_1 [of "100 * 23 / 80"] unfolding n by simp
  then show ?thesis
    by (simp add: show_nat.simps digit_char_def)
qed

lemma winRateText_23_of_80: "winRateText twenty_three_of_eighty = ''28.7%''"
proof -
  have a: "fmul (fdiv (of_int (winning_signals twenty_three_of_eighty))
      (of_int (total_signals twenty_three_of_eighty))) 100 = 8092405580431359 / 281474976710656"
    by (simp add: twenty_three_of_eighty_def fdiv_23_80 fmul_23_80)
  show ?thesis
    unfolding winRateText_def a toFixed_below_tie by (simp add: twenty_three_of_eighty_def)
qed

lemma toFixed_1_floor_cong:
  assumes "0 \<le> x" and "0 \<le> r" and "\<lfloor>x * 10 + 1 / 2\<rfloor> = \<lfloor>r * 10 + 1 / 2\<rfloor>"
  shows "toFixed 1 x = toFixed 1 r"
  using toFixed_1 [OF assms(1)] toFixed_1 [OF assms(2)] assms(3) by simp

lemma floor_between:
  fixes z :: rat
  assumes "of_int k \<le> z" and "z < of_int k + 1"
  shows "\<lfloor>z\<rfloor> = k"
  using assms by (intro floor_unique) simp_all

lemma win_rate_exact_off_ties:
  fixes w t :: int
  assumes "0 < t" and "t \<le> 2 ^ 53" and "0 \<le> w" and "w \<le> 10 ^ 12"
    and "\<not> (2 * t) dvd (2000 * w + t)"
  shows "toFixed 1 (fmul (fdiv (of_int w) (of_int t)) 100) =
         toFixed 1 (100 * of_int w / of_int t)"
proof -
  let ?x = "fmul (fdiv (of_int w) (of_int t)) 100"
  let ?r = "100 * of_int w / of_int t :: rat"
  define N where "N = 2000 * w + t"
  define D where "D = 2 * t"
  define k where "k = N div D"
  define m where "m = N mod D"
  define y where "y = ?r * 10 + 1 / 2"
  define z where "z = ?x * 10 + 1 / 2"
  define Dinv :: rat where "Dinv = 1 / of_int D"
  have w53: "w \<le> 2 ^ 53" using assms(4) by simp
  note acc = win_rate_accuracy [OF assms(1,3) w53 assms(2)]
  have x0: "0 \<le> ?x" using acc by (rule conjunct1)
  have ex: "\<bar>?x - ?r\<bar> \<le> ?r / 2 ^ 51" using acc by (rule conjunct2)
  have tq: "(0::rat) < of_int t" using assms(1) by simp
  have wq: "(0::rat) \<le> of_int w" using assms(3) by simp
  have r0: "0 \<le> ?r" using tq wq by simp
  have Dpos: "0 < D" using assms(1) by (simp add: D_def)
  have Dq: "(0::rat) < of_int D" using Dpos by simp
  have Dinv_pos: "0 < Dinv" using Dq by (simp add: Dinv_def)
  have split: "N = D * k + m" by (simp add: k_def m_def)
  have "m \<noteq> 0" using assms(5) by (simp add: m_def N_def D_def dvd_eq_mod_eq_0)
  moreover have "0 \<le> m" "m < D" using Dpos by (simp_all add: m_def)
  ultimately have m1: "1 \<le> m" and m2: "m \<le> D - 1" by simp_all
  have y: "y = of_int N / of_int D"
    using tq by (simp add: y_def N_def D_def field_simps)
  have Nlo: "(of_int D :: rat) * of_int k + 1 \<le> of_int N"
  proof -
    have "D * k + 1 \<le> N" using split m1 by simp
    then have "(of_int (D * k + 1) :: rat) \<le> of_int N" by (simp only: of_int_le_iff)
    then show ?thesis by simp
  qed
  have Nhi: "(of_int N :: rat) \<le> of_int D * of_int k + of_int D - 1"
  proof -
    have "N \<le> D * k + D - 1" using split m2 by simp
    then have "(of_int N :: rat) \<le> of_int (D * k + D - 1)" by (simp only: of_int_le_iff)
    then show ?thesis by simp
  qed
  have lo: "of_int k + Dinv \<le> y"
  proof -
    have "(of_int D * of_int k + 1) / of_int D \<le> (of_int N :: rat) / of_int D"
      using Nlo Dq by (intro divide_right_mono) simp_all
    moreover have "(of_int D * of_int k + 1) / (of_int D :: rat) = of_int k + Dinv"
      using Dq by (simp add: Dinv_def add_divide_distrib)
    ultimately show ?thesis by (simp add: y)
  qed
  have hi: "y \<le> of_int k + 1 - Dinv"
  proof -
    have "(of_int N :: rat) / of_int D \<le> (of_int D * of_int k + of_int D - 1) / of_int D"
      using Nhi Dq by (intro divide_right_mono) simp_all
    moreover have "(of_int D * of_int k + of_int D - 1) / (of_int D :: rat) = of_int k + 1 - Dinv"
      using Dq by (simp add: Dinv_def add_divide_distrib diff_divide_distrib)
    ultimately show ?thesis by (simp add: y)
  qed
  have small: "10 * (?r / 2 ^ 51) < Dinv"
  proof -
    have "(of_int w :: rat) \<le> of_int (10 ^ 12)" using assms(4) by (simp only: of_int_le_iff)
    then have "(of_int w :: rat) \<le> 1000000000000" by simp
    then have c: "1000 * (of_int w :: rat) / 2 ^ 51 < 1 / 2" by simp
    have "1000 * (of_int w :: rat) / 2 ^ 51 / of_int t < 1 / 2 / of_int t"
      using c tq by (rule divide_strict_right_mono)
    moreover have "10 * (?r / 2 ^ 51) = 1000 * (of_int w :: rat) / 2 ^ 51 / of_int t"
      by simp
    moreover have "Dinv = 1 / 2 / of_int t"
      by (simp add: Dinv_def D_def)
    ultimately show ?thesis by simp
  qed
  have zy: "\<bar>z - y\<bar> < Dinv"
  proof -
    have "\<bar>z - y\<bar> = 10 * \<bar>?x - ?r\<bar>" by (simp add: z_def y_def abs_if)
    also have "\<dots> \<le> 10 * (?r / 2 ^ 51)" using ex by simp
    also have "\<dots> < Dinv" by (rule small)
    finally show ?thesis .
  qed
  have fz: "\<lfloor>z\<rfloor> = k"
    using lo hi zy by (intro floor_between) linarith+
  have fy: "\<lfloor>y\<rfloor> = k"
    using lo hi Dinv_pos by (intro floor_between) linarith+
  show ?thesis
    using x0 r0 fz fy unfolding z_def y_def by (intro toFixed_1_floor_cong) simp_all
qed

section \<open>The win rate\<close>

lemma updatePerformanceStats_win_rate:
  "completed (updatePerformanceStats d) \<Longrightarrow> getElementById (doc d) ''win-rate'' \<Longrightarrow>
   texts (doc (state_of (updatePerformanceStats d))) ''win-rate'' =
     Some (winRateText (performanceData d))"
  by (simp add: updatePerformanceStats_def Let_def texts_set_textContent
        split: option.splits if_splits)

lemma winRateText_decimal:
  assumes "0 < total_signals p" and "total_signals p \<le> 2 ^ 53"
    and "0 \<le> winning_signals p" and "winning_signals p \<le> 2 ^ 53"
  shows "\<exists>n. winRateText p = show_nat (n div 10) @ ''.'' @ [digit_char (n mod 10)] @ ''%'' \<and>
     \<bar>(of_nat n :: rat) / 10 - 100 * of_int (winning_signals p) / of_int (total_signals p)\<bar>
       \<le> 1 / 20 + (100 * of_int (winning_signals p) / of_int (total_signals p)) / 2 ^ 51"
proof -
  let ?x = "fmul (fdiv (of_int (winning_signals p)) (of_int (total_signals p))) 100"
  let ?n = "nat \<lfloor>?x * 10 + 1 / 2\<rfloor>"
  let ?r = "100 * of_int (winning_signals p) / of_int (total_signals p) :: rat"
  note acc = win_rate_accuracy [OF assms(1,3,4,2)]
  have x0: "0 \<le> ?x" using acc by (rule conjunct1)
  have ex: "\<bar>?x - ?r\<bar> \<le> ?r / 2 ^ 51" using acc by (rule conjunct2)
  have t: "winRateText p = show_nat (?n div 10) @ ''.'' @ [digit_char (?n mod 10)] @ ''%''"
    using assms(1) toFixed_1 [OF x0] by (simp add: winRateText_def)
  have "\<bar>of_nat ?n / 10 - ?x\<bar> \<le> 1 / 20" using x0 by (rule nearest_tenth)
  then have "\<bar>of_nat ?n / 10 - ?r\<bar> \<le> 1 / 20 + ?r / 2 ^ 51" using ex by linarith
  with t show ?thesis by blast
qed

text \<open>
  Claim C6, as the code has it. Rendering never changes the performance snapshot, and
  the state has no field for the win rate: the text of the win-rate field is computed
  from the snapshot each time. With \<open>total_signals > 0\<close> it is \<open>toFixed(1)\<close> of the
  double-precision product \<open>(winning_signals / total_signals) * 100\<close>, followed by \<open>%\<close>.
  That text is the exact percentage \<open>100 * winning_signals / total_signals\<close> written
  to one decimal place whenever the exact percentage is not halfway between two tenths
  (for at most \<open>10\<^sup>1\<^sup>2\<close> wins); at such a tie the rounding of the division decides
  between the two tenths. In every case the rendered tenth is within 0.05 and a
  relative \<open>2\<^sup>-\<^sup>5\<^sup>1\<close> of the exact percentage. With \<open>total_signals = 0\<close> the text is
  \<open>0%\<close>, and 6 wins out of 10 give \<open>60.0%\<close>.
\<close>

theorem win_rate_is_toFixed_of_double_product:
  "performanceData (state_of (updatePerformanceStats d)) = performanceData d \<and>
   (getElementById (doc d) ''win-rate'' \<and> completed (updatePerformanceStats d) \<longrightarrow>
      texts (doc (state_of (updatePerformanceStats d))) ''win-rate'' =
        Some (winRateText (performanceData d))) \<and>
   (0 < total_signals p \<longrightarrow>
      winRateText p =
        toFixed 1 (fmul (fdiv (of_int (winning_signals p)) (of_int (total_signals p))) 100) @
        ''%'') \<and>
   (0 < total_signals p \<and> total_signals p \<le> 2 ^ 53 \<and>
    0 \<le> winning_signals p \<and> winning_signals p \<le> 10 ^ 12 \<and>
    \<not> (2 * total_signals p) dvd (2000 * winning_signals p + total_signals p) \<longrightarrow>
      winRateText p =
        toFixed 1 (100 * of_int (winning_signals p) / of_int (total_signals p)) @ ''%'') \<and>
   (0 < total_signals p \<and> total_signals p \<le> 2 ^ 53 \<and>
    0 \<le> winning_signals p \<and> winning_signals p \<le> 2 ^ 53 \<longrightarrow>
      (\<exists>n. winRateText p = show_nat (n div 10) @ ''.'' @ [digit_char (n mod 10)] @ ''%'' \<and>
         \<bar>(of_nat n :: rat) / 10 - 100 * of_int (winning_signals p) / of_int (total_signals p)\<bar>
           \<le> 1 / 20 + (100 * of_int (winning_signals p) / of_int (total_signals p)) / 2 ^ 51)) \<and>
   (total_signals p = 0 \<longrightarrow> winRateText p = ''0%'') \<and>
   (total_signals p = 10 \<and> winning_signals p = 6 \<longrightarrow> winRateText p = ''60.0%'')"
proof (intro conjI impI)
  show "performanceData (state_of (updatePerformanceStats d)) = performanceData d"
    by simp
next
  assume "getElementById (doc d) ''win-rate'' \<and> completed (updatePerformanceStats d)"
  then show "texts (doc (state_of (updatePerformanceStats d))) ''win-rate'' =
        Some (winRateText (performanceData d))"
    by (simp add: updatePerformanceStats_win_rate)
next
  assume "0 < total_signals p"
  then show "winRateText p =
        toFixed 1 (fmul (fdiv (of_int (winning_signals p)) (of_int (total_signals p))) 100) @
        ''%''"
    by (simp add: winRateText_def)
next
  assume a: "0 < total_signals p \<and> total_signals p \<le> 2 ^ 53 \<and>
    0 \<le> winning_signals p \<and> winning_signals p \<le> 10 ^ 12 \<and>
    \<not> (2 * total_signals p) dvd (2000 * winning_signals p + total_signals p)"
  then have "toFixed 1 (fmul (fdiv (of_int (winning_signals p)) (of_int (total_signals p))) 100) =
      toFixed 1 (100 * of_int (winning_signals p) / of_int (total_signals p))"
    by (intro win_rate_exact_off_ties) simp_all
  moreover have "winRateText p =
      toFixed 1 (fmul (fdiv (of_int (winning_signals p)) (of_int (total_signals p))) 100) @ ''%''"
    using a by (simp add: winRateText_def)
  ultimately show "winRateText p =
        toFixed 1 (100 * of_int (winning_signals p) / of_int (total_signals p)) @ ''%''"
    by (simp only:)
next
  assume "0 < total_signals p \<and> total_signals p \<le> 2 ^ 53 \<and>
    0 \<le> winning_signals p \<and> winning_signals p \<le> 2 ^ 53"
  then show "\<exists>n. winRateText p = show_nat (n div 10) @ ''.'' @ [digit_char (n mod 10)] @ ''%'' \<and>
         \<bar>(of_nat n :: rat) / 10 - 100 * of_int (winning_signals p) / of_int (total_signals p)\<bar>
           \<le> 1 / 20 + (100 * of_int (winning_signals p) / of_int (total_signals p)) / 2 ^ 51"
    by (intro winRateText_decimal) simp_all
next
  assume "total_signals p = 0"
  then show "winRateText p = ''0%''"
    by (simp add: winRateText_def)
next
  assume "total_signals p = 10 \<and> winning_signals p = 6"
  then show "winRateText p = ''60.0%''"
    by (simp add: winRateText_six_of_ten)
qed

text \<open>
  At 23 wins out of 80 the exact percentage is 28.75, which written to one decimal
  place is 28.8; the quotient 23 / 80 is rounded down to the nearest double, the
  product with 100 falls just below 28.75, and the field shows \<open>28.7%\<close>.
\<close>

theorem win_rate_tie_rendered_below:
  "winRateText twenty_three_of_eighty = ''28.7%'' \<and>
   toFixed 1 (100 * of_int (winning_signals twenty_three_of_eighty) /
     of_int (total_signals twenty_three_of_eighty)) @ ''%'' = ''28.8%'' \<and>
   winRateText twenty_three_of_eighty \<noteq>
     toFixed 1 (100 * of_int (winning_signals twenty_three_of_eighty) /
       of_int (total_signals twenty_three_of_eighty)) @ ''%''"
proof -
  have a: "winRateText twenty_three_of_eighty = ''28.7%''"
    by (rule winRateText_23_of_80)
  have "toFixed 1 (100 * of_int (winning_signals twenty_three_of_eighty) /
     of_int (total_signals twenty_three_of_eighty)) = toFixed 1 (100 * 23 / 80)"
    by (simp add: twenty_three_of_eighty_def)
  then have b: "toFixed 1 (100 * of_int (winning_signals twenty_three_of_eighty) /
     of_int (total_signals twenty_three_of_eighty)) @ ''%'' = ''28.8%''"
    by (simp only: toFixed_at_tie) simp
  show ?thesis
    unfolding a b by simp
qed

text \<open>
  The snapshot of 6 wins out of 10 is no tie: it renders as \<open>60.0%\<close> on the full page,
  which is the exact percentage to one decimal place. The snapshot the constructor
  starts with (no signals) renders as \<open>0%\<close>.
\<close>

theorem win_rate_witness:
  "getElementById (doc ((new_dashboard dashboard_page)\<lparr>performanceData := six_of_ten\<rparr>)) ''win-rate'' \<and>
   completed (updatePerformanceStats ((new_dashboard dashboard_page)\<lparr>performanceData := six_of_ten\<rparr>)) \<and>
   texts (doc (state_of (updatePerformanceStats
     ((new_dashboard dashboard_page)\<lparr>performanceData := six_of_ten\<rparr>)))) ''win-rate'' =
     Some ''60.0%'' \<and>
   \<not> (2 * total_signals six_of_ten) dvd (2000 * winning_signals six_of_ten + total_signals six_of_ten) \<and>
   winRateText six_of_ten = toFixed 1 (100 * 6 / 10) @ ''%'' \<and>
   texts (doc (state_of (updatePerformanceStats (new_dashboard dashboard_page)))) ''win-rate'' =
     Some ''0%''"
proof -
  let ?d = "(new_dashboard dashboard_page)\<lparr>performanceData := six_of_ten\<rparr>"
  have el: "getElementById (doc ?d) ''win-rate''"
    "getElementById (doc (new_dashboard dashboard_page)) ''win-rate''"
    by (simp_all add: new_dashboard_fields dashboard_page_present)
  have c: "completed (updatePerformanceStats ?d)"
    "completed (updatePerformanceStats (new_dashboard dashboard_page))"
    by (simp_all add: updatePerformanceStats_completed six_of_ten_def new_dashboard_def
          initializeCharts_def Let_def del: not_None_eq)
  have s: "total_signals six_of_ten = 10 \<and> winning_signals six_of_ten = 6"
    by (simp add: six_of_ten_def)
  have nt: "\<not> (2 * total_signals six_of_ten) dvd
      (2000 * winning_signals six_of_ten + total_signals six_of_ten)"
    by (simp add: six_of_ten_def)
  have rg: "0 < total_signals six_of_ten \<and> total_signals six_of_ten \<le> 2 ^ 53 \<and>
    0 \<le> winning_signals six_of_ten \<and> winning_signals six_of_ten \<le> 10 ^ 12"
    by (simp add: six_of_ten_def)
  have z: "total_signals (performanceData (new_dashboard dashboard_page)) = 0"
    by (simp add: new_dashboard_def initializeCharts_def Let_def)
  note t1 = win_rate_is_toFixed_of_double_product [of ?d six_of_ten]
  note t2 = win_rate_is_toFixed_of_double_product
      [of "new_dashboard dashboard_page" "performanceData (new_dashboard dashboard_page)"]
  have a1: "texts (doc (state_of (updatePerformanceStats ?d))) ''win-rate'' =
      Some (winRateText (performanceData ?d))"
    using t1 [THEN conjunct2, THEN conjunct1] el(1) c(1) by blast
  have a2: "winRateText six_of_ten = ''60.0%''"
    using t1 s by blast
  have a: "texts (doc (state_of (updatePerformanceStats ?d))) ''win-rate'' = Some ''60.0%''"
    using a1 a2 by simp
  have e1: "winRateText six_of_ten =
      toFixed 1 (100 * of_int (winning_signals six_of_ten) / of_int (total_signals six_of_ten)) @ ''%''"
    using t1 [THEN conjunct2, THEN conjunct2, THEN conjunct2, THEN conjunct1] rg nt by blast
  have e: "winRateText six_of_ten = toFixed 1 (100 * 6 / 10) @ ''%''"
    unfolding e1 by (simp add: six_of_ten_def)
  have b1: "texts (doc (state_of (updatePerformanceStats (new_dashboard dashboard_page))))
      ''win-rate'' = Some (winRateText (performanceData (new_dashboard dashboard_page)))"
    using t2 [THEN conjunct2, THEN conjunct1] el(2) c(2) by blast
  have b2: "winRateText (performanceData (new_dashboard dashboard_page)) = ''0%''"
    using t2 z by blast
  have b: "texts (doc (state_of (updatePerformanceStats (new_dashboard dashboard_page))))
      ''win-rate'' = Some ''0%''"
    using b1 b2 by simp
  show ?thesis
    using el(1) c(1) a nt e b by (intro conjI)
qed

section \<open>Further properties\<close>

text \<open>
  A pull shows the whole pulled log: \<open>displaySignals\<close> appends one element per signal
  and trims nothing, so the list is as long as the log, also beyond 20 entries, and
  it stays so whether or not a later request of the same pull fails.
\<close>

theorem pulled_log_shown_in_full:
  "children (doc (state_of (loadInitialData now (Resolved sigs) pr cr d))) =
     (if getElementById (doc d) ''signals-container'' then map createSignalElement sigs
      else children (doc d))"
  by (simp add: loadInitialData_state loadInitialData_try_eq displaySignals_children
        split: fetched.splits)

text \<open>
  A \<open>new_signal\<close> event raises one notification with the text
  \<open>New {direction} signal for {asset}\<close> in the colour of a success.
\<close>

theorem new_signal_notification:
  "body (doc (on_new_signal now s d)) =
     body (doc d) @
       [\<lparr>badge_text = ''New '' @ direction s @ '' signal for '' @ asset s,
         badge_background = ''#27ae60''\<rparr>]"
  by (simp add: on_new_signal_def showNotification_def)

text \<open>
  A \<open>connection_update\<close> writes the connection and the authentication status from the
  payload and touches neither the signal log nor the visible list.
\<close>

theorem connection_update_status_texts:
  "texts (doc (on_connection_update stats d)) ''connection-status'' =
     (if getElementById (doc d) ''connection-status''
      then Some (if websocket_connected stats then check_mark @ '' Connected''
                 else cross_mark @ '' Disconnected'')
      else None) \<and>
   texts (doc (on_connection_update stats d)) ''authentication-status'' =
     (if getElementById (doc d) ''authentication-status''
      then Some (if authenticated stats then check_mark @ '' Authenticated''
                 else cross_mark @ '' Not Authenticated'')
      else None) \<and>
   signals (on_connection_update stats d) = signals d \<and>
   children (doc (on_connection_update stats d)) = children (doc d)"
  by (simp add: on_connection_update_def updateConnectionStatus_def Let_def
        texts_set_textContent getElementById_def split: option.splits)

end
